theory Spec2Isabelle
  imports Main "HOL-Library.Word" "HOL-Library.AList"
begin

unbundle bit_operations_syntax

section \<open>KICKR BIKE SHIFT bridge: short frames, de-duplication, held keys, reconnect loop\<close>

text \<open>
  A shallow embedding of \<^verbatim>\<open>wahoo_bike_shift_to_button_gui_006.py\<close>. The module's
  global dictionaries and the attributes of \<^verbatim>\<open>BikeKeyGUI\<close> that the BLE thread
  uses become the fields of one record, passed through every function. Everything the
  program does to the outside (a \<^verbatim>\<open>pydirectinput\<close> call, a message put on
  \<^verbatim>\<open>msgq\<close>, a call of the BLE client, a sleep) is appended to a trace, in
  program order. What the outside answers (whether a key injection raises, what a scan
  finds, whether a connect succeeds, when the user clicks Disconnect) is a parameter.
\<close>

subsection \<open>Configuration\<close>

text \<open>\<^verbatim>\<open>PREFIX_TO_BUTTON\<close>, in the order of the source.\<close>

definition PREFIX_TO_BUTTON :: "(string \<times> string) list" where
  "PREFIX_TO_BUTTON =
    [(''0001'', ''Right Up''),
     (''8000'', ''Right Down''),
     (''0008'', ''Right Steer''),
     (''0004'', ''Right Shift Up''),
     (''0002'', ''Right Shift Down''),
     (''4000'', ''Right Brake''),
     (''0200'', ''Left Up''),
     (''0400'', ''Left Down''),
     (''2000'', ''Left Steer''),
     (''1000'', ''Left Shift Up''),
     (''0800'', ''Left Shift Down''),
     (''0100'', ''Left Brake'')]"

text \<open>
  \<^verbatim>\<open>BUTTON_TO_KEY\<close> and \<^verbatim>\<open>BUTTON_BEHAVIOR\<close> are the part of the source the
  user edits (``remove or set None to disable'', ``uncomment to make brakes hold too''),
  so the handler takes them as a parameter; \<open>source_config\<close> below is the source's
  own setting. \<open>button_to_key c name\<close> is \<^verbatim>\<open>BUTTON_TO_KEY.get(name)\<close>: \<open>None\<close>
  for a missing name and for one set to \<^verbatim>\<open>None\<close>. \<open>button_behavior c name\<close> is
  the dictionary lookup alone; the default \<^verbatim>\<open>"tap"\<close> is applied where the source
  applies it.
\<close>

record config =
  button_to_key :: "string \<Rightarrow> string option"
  button_behavior :: "string \<Rightarrow> string option"

definition BUTTON_TO_KEY :: "(string \<times> string) list" where
  "BUTTON_TO_KEY =
    [(''Right Up'', ''7''),
     (''Right Down'', ''3''),
     (''Right Steer'', ''ArrowRight''),
     (''Right Shift Up'', ''i''),
     (''Right Shift Down'', ''k''),
     (''Right Brake'', ''Space''),
     (''Left Up'', ''3''),
     (''Left Down'', ''4''),
     (''Left Steer'', ''ArrowLeft''),
     (''Left Shift Up'', ''i''),
     (''Left Shift Down'', ''k''),
     (''Left Brake'', ''Space'')]"

definition BUTTON_BEHAVIOR :: "(string \<times> string) list" where
  "BUTTON_BEHAVIOR =
    [(''Right Steer'', ''hold''),
     (''Left Steer'', ''hold'')]"

definition source_config :: config where
  "source_config =
    \<lparr>button_to_key = map_of BUTTON_TO_KEY, button_behavior = map_of BUTTON_BEHAVIOR\<rparr>"

text \<open>
  \<^verbatim>\<open>RECONNECT_DELAY_S = 1.5\<close>, in milliseconds.
\<close>

definition RECONNECT_DELAY_MS :: nat where
  "RECONNECT_DELAY_MS = 1500"

definition DEVICE_NAME_PREFIX :: string where
  "DEVICE_NAME_PREFIX = ''KICKR BIKE SHIFT''"

definition KEY_NAME_MAP :: "(string \<times> string) list" where
  "KEY_NAME_MAP =
    [(''ArrowUp'', ''up''),
     (''ArrowDown'', ''down''),
     (''ArrowLeft'', ''left''),
     (''ArrowRight'', ''right''),
     (''Space'', ''space''),
     (''Enter'', ''enter''),
     (''Tab'', ''tab''),
     (''Esc'', ''esc''),
     (''Escape'', ''esc''),
     (''Backspace'', ''backspace''),
     (''Delete'', ''delete''),
     (''Home'', ''home''),
     (''End'', ''end''),
     (''PageUp'', ''pageup''),
     (''PageDown'', ''pagedown'')]"

subsection \<open>The short frame\<close>

type_synonym byte = "8 word"

text \<open>\<^verbatim>\<open>f"{p:02X}"\<close>: two upper-case hexadecimal digits of a byte.\<close>

definition hex_digit :: "nat \<Rightarrow> char" where
  "hex_digit n = ''0123456789ABCDEF'' ! (n mod 16)"

definition hex2 :: "byte \<Rightarrow> string" where
  "hex2 b = [hex_digit (unat b div 16), hex_digit (unat b mod 16)]"

text \<open>\<^verbatim>\<open>payload.hex().upper()\<close>.\<close>

definition hex_upper :: "byte list \<Rightarrow> string" where
  "hex_upper payload = concat (map hex2 payload)"

text \<open>
  The event type is the string \<^verbatim>\<open>"press"\<close> or \<^verbatim>\<open>"release"\<close> in the source;
  no other value is ever built.
\<close>

datatype ev_type = Press | Release

record button_event =
  prefix :: string
  name :: string
  type :: ev_type
  seq :: nat
  rrHex :: string

definition parse_short_frame :: "byte list \<Rightarrow> button_event option" where
  "parse_short_frame payload =
    (case payload of
       [p, q, r] \<Rightarrow>
         (let prefix = hex2 p @ hex2 q in
          case map_of PREFIX_TO_BUTTON prefix of
            None \<Rightarrow> None
          | Some button \<Rightarrow>
              (let pressed = (r AND 0x80 \<noteq> 0);
                   seq = unat (r AND 0x7F);
                   ev_type = (if pressed then Press else Release)
               in Some \<lparr>prefix = prefix, name = button, type = ev_type, seq = seq,
                         rrHex = hex2 r\<rparr>))
     | _ \<Rightarrow> None)"

subsection \<open>Everything observable, in program order\<close>

text \<open>
  The three \<^verbatim>\<open>pydirectinput\<close> calls of the source, with the key string they are
  given.
\<close>

datatype key_call = PressKey string | KeyDown string | KeyUp string

text \<open>How a call ends: it returns, or it raises an \<^verbatim>\<open>Exception\<close>.\<close>

datatype completion = Returned | Raised

text \<open>
  The lines the BLE thread logs. The texts of the source, by constructor:
  \<^verbatim>\<open>[BLE] Scanning...\<close>; \<^verbatim>\<open>[BLE] Device not found. Is the bike on / advertising?\<close>;
  \<^verbatim>\<open>[BLE] Found {dev.name} ({dev.address}) - connecting\<close>; \<^verbatim>\<open>[BLE] Failed to connect.\<close>;
  \<^verbatim>\<open>[BLE] Connected. Subscribing to notifications\<close>;
  \<^verbatim>\<open>[BLE] Listening (short-frames only).\<close>; \<^verbatim>\<open>[BLE] Notifications stopped.\<close>;
  \<^verbatim>\<open>[BLE] stop_notify error: {e}\<close>; \<^verbatim>\<open>[BLE] Disconnected from device.\<close>;
  \<^verbatim>\<open>[BLE] disconnect error: {e}\<close>; \<^verbatim>\<open>[BLE] Will retry in 1.5s\<close>;
  \<^verbatim>\<open>[BLE] Other frame: {payload.hex().upper()}\<close>;
  \<^verbatim>\<open>[BLE] {name} {ev_type} seq={seq} ({prefix}{rr})\<close>; and \<^verbatim>\<open>[BLE] Error: {e}\<close>
  of \<^verbatim>\<open>_ble_worker\<close>. The text of an exception is not modelled.
\<close>

datatype log_line =
    LogScanning
  | LogNotFound
  | LogFound string string
  | LogFailedToConnect
  | LogSubscribing
  | LogListening
  | LogNotificationsStopped
  | LogStopNotifyError
  | LogDisconnected
  | LogDisconnectError
  | LogWillRetry
  | LogOtherFrame string
  | LogButton string ev_type nat string string
  | LogError

datatype status_text =
  Scanning | NotFound | Error | Connected | Disconnected | Reconnecting

datatype color = Gray | Orange | Red | Green

text \<open>The tuples put on \<^verbatim>\<open>msgq\<close>.\<close>

datatype ui_msg = Log log_line | Status status_text color | EnableConnect bool

datatype ble_call = Discover | Connect | StartNotify | StopNotify | Disconnect

text \<open>
  \<open>Key c r\<close>: the call \<open>c\<close> of \<^verbatim>\<open>pydirectinput\<close> was issued and ended as \<open>r\<close>.
  \<open>Put m\<close>: \<^verbatim>\<open>self.msgq.put(m)\<close>. \<open>SetStatus\<close>: the direct call of
  \<^verbatim>\<open>self.set_status\<close> at the head of a scan. \<open>Ble c\<close>: an awaited call of the
  BLE library. \<open>Sleep ms\<close>: \<^verbatim>\<open>await asyncio.sleep\<close> of the reconnect delay.
  \<open>StopSet\<close>: \<^verbatim>\<open>stop_event.set()\<close>, done by the GUI thread.
\<close>

datatype event =
    Key key_call completion
  | Put ui_msg
  | SetStatus status_text color
  | Ble ble_call
  | Sleep nat
  | StopSet

text \<open>
  \<open>HELD_BY_BUTTON\<close> is \<^verbatim>\<open>_HELD_BY_BUTTON\<close>, a dictionary in insertion order;
  \<open>last_seq\<close> is \<^verbatim>\<open>_last_seq\<close>; \<open>stop_event\<close> and \<open>notify_on\<close> are the
  attributes of \<^verbatim>\<open>BikeKeyGUI\<close>. (\<^verbatim>\<open>self.client\<close> is written and never read.)
\<close>

record world =
  trace :: "event list"
  HELD_BY_BUTTON :: "(string \<times> string) list"
  last_seq :: "string \<times> ev_type \<Rightarrow> nat option"
  stop_event :: bool
  notify_on :: bool

text \<open>The state of a freshly started program.\<close>

definition initial_world :: world where
  "initial_world =
    \<lparr>trace = [], HELD_BY_BUTTON = [], last_seq = (\<lambda>_. None),
     stop_event = False, notify_on = False\<rparr>"

text \<open>
  Whether a \<^verbatim>\<open>pydirectinput\<close> call raises is decided by the outside: by the call
  and by everything that happened before it.
\<close>

record env =
  key_raises :: "event list \<Rightarrow> key_call \<Rightarrow> bool"

definition emit :: "event \<Rightarrow> world \<Rightarrow> world" where
  "emit e s = s\<lparr>trace := trace s @ [e]\<rparr>"

definition msgq_put :: "ui_msg \<Rightarrow> world \<Rightarrow> world" where
  "msgq_put m s = emit (Put m) s"

subsection \<open>Key injection\<close>

definition to_pydi_key :: "string \<Rightarrow> string option" where
  "to_pydi_key key_name =
    (if key_name = [] then None
     else (case map_of KEY_NAME_MAP key_name of
             Some mapped \<Rightarrow> (if mapped \<noteq> [] then Some mapped else Some key_name)
           | None \<Rightarrow> Some key_name))"

definition pydirectinput :: "env \<Rightarrow> key_call \<Rightarrow> world \<Rightarrow> completion \<times> world" where
  "pydirectinput E c s =
    (if key_raises E (trace s) c then (Raised, emit (Key c Raised) s)
     else (Returned, emit (Key c Returned) s))"

definition send_key_tap :: "env \<Rightarrow> string \<Rightarrow> world \<Rightarrow> completion \<times> world" where
  "send_key_tap E key_name s =
    (case to_pydi_key key_name of
       None \<Rightarrow> (Returned, s)
     | Some k \<Rightarrow> (if k = [] then (Returned, s) else pydirectinput E (PressKey k) s))"

definition send_key_down :: "env \<Rightarrow> string \<Rightarrow> world \<Rightarrow> completion \<times> world" where
  "send_key_down E key_name s =
    (case to_pydi_key key_name of
       None \<Rightarrow> (Returned, s)
     | Some k \<Rightarrow> (if k = [] then (Returned, s) else pydirectinput E (KeyDown k) s))"

definition send_key_up :: "env \<Rightarrow> string \<Rightarrow> world \<Rightarrow> completion \<times> world" where
  "send_key_up E key_name s =
    (case to_pydi_key key_name of
       None \<Rightarrow> (Returned, s)
     | Some k \<Rightarrow> (if k = [] then (Returned, s) else pydirectinput E (KeyUp k) s))"

subsection \<open>The held keys\<close>

text \<open>
  \<^verbatim>\<open>d.pop(k, None)\<close> and \<^verbatim>\<open>d[k] = v\<close> on a dictionary kept as an association
  list: \<open>AList.delete\<close> removes the key, \<open>AList.update\<close> overwrites in place or
  appends a new key at the end.
\<close>

definition hold_if_needed :: "env \<Rightarrow> string \<Rightarrow> string \<Rightarrow> world \<Rightarrow> completion \<times> world" where
  "hold_if_needed E button_name key_name s =
    (if map_of (HELD_BY_BUTTON s) button_name = None then
       (case send_key_down E key_name s of
          (Raised, s') \<Rightarrow> (Raised, s')
        | (Returned, s') \<Rightarrow>
            (Returned,
             s'\<lparr>HELD_BY_BUTTON := AList.update button_name key_name (HELD_BY_BUTTON s')\<rparr>))
     else (Returned, s))"

definition release_if_held :: "env \<Rightarrow> string \<Rightarrow> world \<Rightarrow> completion \<times> world" where
  "release_if_held E button_name s =
    (let key_name = map_of (HELD_BY_BUTTON s) button_name;
         s1 = s\<lparr>HELD_BY_BUTTON := AList.delete button_name (HELD_BY_BUTTON s)\<rparr>
     in case key_name of
          None \<Rightarrow> (Returned, s1)
        | Some k \<Rightarrow> (if k = [] then (Returned, s1) else send_key_up E k s1))"

text \<open>
  The body of the loop of \<^verbatim>\<open>release_all_held_keys\<close>: the \<^verbatim>\<open>try\<close> with its
  \<^verbatim>\<open>except Exception: pass\<close>, then the \<^verbatim>\<open>pop\<close>.
\<close>

definition release_one :: "env \<Rightarrow> string \<times> string \<Rightarrow> world \<Rightarrow> completion \<times> world" where
  "release_one E entry s =
    (case entry of (btn, key_name) \<Rightarrow>
       (let (r, s1) = send_key_up E key_name s;
            (r', s2) = (case r of Raised \<Rightarrow> (Returned, s1) | Returned \<Rightarrow> (Returned, s1))
        in (r', s2\<lparr>HELD_BY_BUTTON := AList.delete btn (HELD_BY_BUTTON s2)\<rparr>)))"

text \<open>The \<^verbatim>\<open>for\<close> over the snapshot \<^verbatim>\<open>list(_HELD_BY_BUTTON.items())\<close>.\<close>

fun release_loop :: "env \<Rightarrow> (string \<times> string) list \<Rightarrow> world \<Rightarrow> completion \<times> world" where
  "release_loop E [] s = (Returned, s)"
| "release_loop E (entry # rest) s =
    (case release_one E entry s of
       (Raised, s') \<Rightarrow> (Raised, s')
     | (Returned, s') \<Rightarrow> release_loop E rest s')"

definition release_all_held_keys :: "env \<Rightarrow> world \<Rightarrow> completion \<times> world" where
  "release_all_held_keys E s = release_loop E (HELD_BY_BUTTON s) s"

subsection \<open>De-duplication\<close>

definition already_handled :: "string \<Rightarrow> ev_type \<Rightarrow> nat \<Rightarrow> world \<Rightarrow> bool \<times> world" where
  "already_handled pfx ev sq s =
    (let key = (pfx, ev) in
     if last_seq s key = Some sq then (True, s)
     else (False, s\<lparr>last_seq := (last_seq s)(key \<mapsto> sq)\<rparr>))"

subsection \<open>The notification handler\<close>

text \<open>
  The second half of \<^verbatim>\<open>notification_handler\<close>, from ``Resolve behavior and key'' on:
  what is done with an event that was decoded, was not a duplicate and has been logged.
\<close>

definition dispatch :: "env \<Rightarrow> config \<Rightarrow> string \<Rightarrow> ev_type \<Rightarrow> world \<Rightarrow> completion \<times> world" where
  "dispatch E c button ev s =
    (let key_name = button_to_key c button;
         behavior = (case button_behavior c button of None \<Rightarrow> ''tap'' | Some b \<Rightarrow> b)
     in if ev = Press then
          (case key_name of
             None \<Rightarrow> (Returned, s)
           | Some k \<Rightarrow>
               (if k = [] then (Returned, s)
                else if behavior = ''tap'' then send_key_tap E k s
                else hold_if_needed E button k s))
        else
          (if behavior = ''hold'' then release_if_held E button s else (Returned, s)))"

text \<open>
  \<open>debug\<close> is \<^verbatim>\<open>self.debug_var.get()\<close>, the Debug checkbox at the time of the
  frame.
\<close>

definition notification_handler ::
  "env \<Rightarrow> config \<Rightarrow> bool \<Rightarrow> byte list \<Rightarrow> world \<Rightarrow> completion \<times> world" where
  "notification_handler E c debug payload s =
    (case parse_short_frame payload of
       None \<Rightarrow>
         (if debug then (Returned, msgq_put (Log (LogOtherFrame (hex_upper payload))) s)
          else (Returned, s))
     | Some evt \<Rightarrow>
         (case already_handled (prefix evt) (type evt) (seq evt) s of
            (True, s1) \<Rightarrow> (Returned, s1)
          | (False, s1) \<Rightarrow>
              dispatch E c (name evt) (type evt)
                (msgq_put
                  (Log (LogButton (name evt) (type evt) (seq evt) (prefix evt) (rrHex evt)))
                  s1)))"

text \<open>
  Frames arrive one after the other. An exception of the handler ends the handling of
  that frame only: the handler runs as a callback of the BLE library, outside
  \<^verbatim>\<open>_ble_main\<close>, and what it had done before raising stays done.
\<close>

fun handle_frames :: "env \<Rightarrow> config \<Rightarrow> (byte list \<times> bool) list \<Rightarrow> world \<Rightarrow> world" where
  "handle_frames E c [] s = s"
| "handle_frames E c ((payload, debug) # rest) s =
    handle_frames E c rest (snd (notification_handler E c debug payload s))"

text \<open>Events of one button given straight to the dispatching half, in order.\<close>

fun dispatch_all :: "env \<Rightarrow> config \<Rightarrow> string \<Rightarrow> ev_type list \<Rightarrow> world \<Rightarrow> world" where
  "dispatch_all E c button [] s = s"
| "dispatch_all E c button (ev # evs) s =
    dispatch_all E c button evs (snd (dispatch E c button ev s))"

subsection \<open>The reconnect loop\<close>

text \<open>
  A device as the scanner reports it: \<^verbatim>\<open>d.name\<close> (which may be \<^verbatim>\<open>None\<close>) and
  \<^verbatim>\<open>d.address\<close>.
\<close>

record device =
  dev_name :: "string option"
  dev_address :: string

definition find_device_by_prefix :: "string \<Rightarrow> device list \<Rightarrow> device option" where
  "find_device_by_prefix pfx devices =
    find (\<lambda>d. case dev_name d of
                 None \<Rightarrow> False
               | Some n \<Rightarrow> n \<noteq> [] \<and> take (length pfx) n = pfx) devices"

text \<open>
  What the outside does during one pass of the \<^verbatim>\<open>while\<close> loop of \<^verbatim>\<open>_ble_main\<close>,
  one field for each place where the pass waits for it. A \<open>stop_in_\<close> field says that
  the GUI thread sets \<^verbatim>\<open>stop_event\<close> while the BLE thread waits there, and
  \<open>stop_at_head\<close> that it sets it right after the test of the loop has let the pass
  begin, before anything else of the pass. A field is read only if the pass gets to its
  place.
  \<^item> \<open>discovered\<close>: what \<^verbatim>\<open>BleakScanner.discover\<close> does, if a scan is made;
  \<^item> \<open>connect_result\<close>: \<^verbatim>\<open>client.connect()\<close> raises, or returns with
    \<^verbatim>\<open>client.is_connected\<close> false, or true;
  \<^item> \<open>start_notify_raises\<close>: whether \<^verbatim>\<open>client.start_notify\<close> raises;
  \<^item> \<open>frames\<close>: the notifications that arrive while the listening loop sleeps, each
    with the Debug checkbox at that time; \<open>listen_end\<close>: what ends that loop;
  \<^item> \<open>stop_notify_raises\<close>, \<open>still_connected\<close> (\<^verbatim>\<open>client.is_connected\<close> in the
    cleanup), \<open>disconnect_raises\<close>: the cleanup.
\<close>

datatype scan_result = ScanRaises | ScanFinds "device list"

datatype connect_result = ConnectRaises | NotConnected | IsConnected

datatype listen_end = LinkDropped | StopClicked

record attempt =
  stop_at_head :: bool
  discovered :: scan_result
  stop_in_scan :: bool
  connect_result :: connect_result
  stop_in_connect :: bool
  stop_in_connect_sleep :: bool
  start_notify_raises :: bool
  stop_in_start_notify :: bool
  frames :: "(byte list \<times> bool) list"
  listen_end :: listen_end
  stop_in_cleanup :: bool
  stop_notify_raises :: bool
  still_connected :: bool
  disconnect_raises :: bool
  stop_in_retry_sleep :: bool

text \<open>\<^verbatim>\<open>stop_event.set()\<close> by the GUI thread, if it happens; setting it again shows nothing.\<close>

definition request_stop :: "bool \<Rightarrow> world \<Rightarrow> world" where
  "request_stop now s =
    (if now \<and> \<not> stop_event s then emit StopSet (s\<lparr>stop_event := True\<rparr>) else s)"

text \<open>
  The head of a pass: \<^verbatim>\<open>if dev is None\<close>, scan. \<open>NoDevice\<close> is the \<^verbatim>\<open>return\<close> after
  ``Device not found''; \<open>ScanError\<close> is an exception of the scanner, which nothing in
  \<^verbatim>\<open>_ble_main\<close> catches.
\<close>

datatype scan_outcome = Found device | NoDevice | ScanError

definition scan :: "attempt \<Rightarrow> device option \<Rightarrow> world \<Rightarrow> scan_outcome \<times> world" where
  "scan a dev s =
    (case dev of
       Some d \<Rightarrow> (Found d, s)
     | None \<Rightarrow>
         (let s1 = emit (SetStatus Scanning Orange) s;
              s2 = msgq_put (Log LogScanning) s1;
              s3 = request_stop (stop_in_scan a) (emit (Ble Discover) s2)
          in case discovered a of
               ScanRaises \<Rightarrow> (ScanError, s3)
             | ScanFinds devices \<Rightarrow>
                 (case find_device_by_prefix DEVICE_NAME_PREFIX devices of
                    None \<Rightarrow>
                      (NoDevice,
                       msgq_put (EnableConnect True)
                         (msgq_put (Status NotFound Red)
                           (msgq_put (Log LogNotFound) s3)))
                  | Some d \<Rightarrow> (Found d, s3))))"

text \<open>
  The inner \<^verbatim>\<open>while not stop and not disconnected\<close> loop: it does not run at all
  when the stop is already set; otherwise the frames are handled and the loop ends by
  a click on Disconnect or by the disconnect callback.
\<close>

definition listen :: "env \<Rightarrow> config \<Rightarrow> attempt \<Rightarrow> world \<Rightarrow> world" where
  "listen E c a s =
    (if stop_event s then s
     else (let s1 = handle_frames E c (frames a) s
           in case listen_end a of
                StopClicked \<Rightarrow> request_stop True s1
              | LinkDropped \<Rightarrow> s1))"

text \<open>
  The body of the \<^verbatim>\<open>try\<close>, and how it is left: by an exception, by the
  \<^verbatim>\<open>break\<close> or the \<^verbatim>\<open>continue\<close> of the branch ``Failed to connect'' (which has set
  \<^verbatim>\<open>dev = None\<close>), or at its end, after listening. (The constructor
  \<^verbatim>\<open>BleakClient(dev, ...)\<close> is taken to succeed, so \<^verbatim>\<open>client\<close> is set from here on.)
\<close>

datatype body_result = BodyRaised | BodyBreak | BodyContinue | BodyEnd

definition attempt_body :: "env \<Rightarrow> config \<Rightarrow> attempt \<Rightarrow> world \<Rightarrow> body_result \<times> world" where
  "attempt_body E c a s =
    (let s1 = request_stop (stop_in_connect a) (emit (Ble Connect) s)
     in case connect_result a of
          ConnectRaises \<Rightarrow> (BodyRaised, s1)
        | NotConnected \<Rightarrow>
            (let s2 = msgq_put (Status Error Red) (msgq_put (Log LogFailedToConnect) s1)
             in if stop_event s2 then (BodyBreak, s2)
                else (BodyContinue,
                      request_stop (stop_in_connect_sleep a)
                        (emit (Sleep RECONNECT_DELAY_MS) s2)))
        | IsConnected \<Rightarrow>
            (let s2 = msgq_put (Log LogSubscribing) s1;
                 s3 = request_stop (stop_in_start_notify a) (emit (Ble StartNotify) s2)
             in if start_notify_raises a then (BodyRaised, s3)
                else (let s4 = s3\<lparr>notify_on := True\<rparr>;
                          s5 = msgq_put (Log LogListening)
                                 (msgq_put (Status Connected Green) s4)
                      in (BodyEnd, listen E c a s5))))"

text \<open>
  The \<^verbatim>\<open>finally\<close> of the \<^verbatim>\<open>try\<close>. First its own \<^verbatim>\<open>try\<close>:
  \<^verbatim>\<open>stop_notify\<close> if notifications are on, \<^verbatim>\<open>disconnect\<close> if the client is
  still connected; an exception of either is logged and dropped.
\<close>

definition teardown :: "attempt \<Rightarrow> world \<Rightarrow> world" where
  "teardown a s =
    (let s0 = request_stop (stop_in_cleanup a) s;
         s1 = (if notify_on s0 then
                 (let s' = emit (Ble StopNotify) s0
                  in if stop_notify_raises a then msgq_put (Log LogStopNotifyError) s'
                     else msgq_put (Log LogNotificationsStopped) s')
               else s0)
     in if still_connected a then
          (let s' = emit (Ble Disconnect) s1
           in if disconnect_raises a then msgq_put (Log LogDisconnectError) s'
              else msgq_put (Log LogDisconnected) s')
        else s1)"

text \<open>
  Then its inner \<^verbatim>\<open>finally\<close>: \<^verbatim>\<open>self._notify_on = False\<close> and
  \<^verbatim>\<open>release_all_held_keys()\<close>.
\<close>

definition cleanup :: "env \<Rightarrow> attempt \<Rightarrow> world \<Rightarrow> completion \<times> world" where
  "cleanup E a s = release_all_held_keys E ((teardown a s)\<lparr>notify_on := False\<rparr>)"

text \<open>
  How \<^verbatim>\<open>_ble_main\<close> ends: by the \<^verbatim>\<open>return\<close> after ``Device not found''; by leaving
  the loop (its condition, or a \<^verbatim>\<open>break\<close>); or by an exception. \<open>StillRunning\<close>: it
  has not ended within the passes described.
\<close>

datatype ending = NotFoundReturn | LoopExit | Exception | StillRunning

datatype step = Next "device option" | Done ending

text \<open>
  From the \<^verbatim>\<open>finally\<close> to the end of the pass: the cleanup, then the exception or
  jump that left the \<^verbatim>\<open>try\<close> goes on; after a \<^verbatim>\<open>try\<close> that ran to its end, ``Decide
  whether to reconnect or exit''.
\<close>

definition finish :: "env \<Rightarrow> attempt \<Rightarrow> device \<Rightarrow> body_result \<times> world \<Rightarrow> step \<times> world" where
  "finish E a d bs =
    (case bs of (b, s) \<Rightarrow>
       (case cleanup E a s of
          (Raised, s') \<Rightarrow> (Done Exception, s')
        | (Returned, s') \<Rightarrow>
            (case b of
               BodyRaised \<Rightarrow> (Done Exception, s')
             | BodyBreak \<Rightarrow> (Done LoopExit, s')
             | BodyContinue \<Rightarrow> (Next None, s')
             | BodyEnd \<Rightarrow>
                 (if stop_event s' then
                    (Done LoopExit,
                     msgq_put (EnableConnect True) (msgq_put (Status Disconnected Gray) s'))
                  else
                    (Next (Some d),
                     request_stop (stop_in_retry_sleep a)
                       (emit (Sleep RECONNECT_DELAY_MS)
                         (msgq_put (Log LogWillRetry)
                           (msgq_put (Status Reconnecting Orange) s'))))))))"

text \<open>The name a found device is logged with (it has one, or it would not be found).\<close>

definition name_of :: "device \<Rightarrow> string" where
  "name_of d = (case dev_name d of None \<Rightarrow> [] | Some n \<Rightarrow> n)"

text \<open>
  One pass of the loop, entered with the stop not set. The stop may be set as soon as the
  test of the loop has been passed.
\<close>

definition ble_attempt ::
  "env \<Rightarrow> config \<Rightarrow> attempt \<Rightarrow> device option \<Rightarrow> world \<Rightarrow> step \<times> world" where
  "ble_attempt E c a dev s =
    (case scan a dev (request_stop (stop_at_head a) s) of
       (ScanError, s1) \<Rightarrow> (Done Exception, s1)
     | (NoDevice, s1) \<Rightarrow> (Done NotFoundReturn, s1)
     | (Found d, s1) \<Rightarrow>
         (let s2 = msgq_put (Log (LogFound (name_of d) (dev_address d))) s1;
              s3 = s2\<lparr>notify_on := False\<rparr>
          in finish E a d (attempt_body E c a s3)))"

text \<open>
  \<^verbatim>\<open>while not self.stop_event.is_set()\<close>, over the passes described; \<open>dev\<close> is the
  local variable of that name.
\<close>

fun ble_main_loop ::
  "env \<Rightarrow> config \<Rightarrow> attempt list \<Rightarrow> device option \<Rightarrow> world \<Rightarrow> ending \<times> world" where
  "ble_main_loop E c [] dev s = (if stop_event s then (LoopExit, s) else (StillRunning, s))"
| "ble_main_loop E c (a # rest) dev s =
    (if stop_event s then (LoopExit, s)
     else (case ble_attempt E c a dev s of
             (Done e, s') \<Rightarrow> (e, s')
           | (Next dev', s') \<Rightarrow> ble_main_loop E c rest dev' s'))"

definition ble_main :: "env \<Rightarrow> config \<Rightarrow> attempt list \<Rightarrow> world \<Rightarrow> ending \<times> world" where
  "ble_main E c passes s = ble_main_loop E c passes None s"

text \<open>\<^verbatim>\<open>_ble_worker\<close>: an exception of \<^verbatim>\<open>_ble_main\<close> is reported as status ``Error''.\<close>

definition ble_worker :: "env \<Rightarrow> config \<Rightarrow> attempt list \<Rightarrow> world \<Rightarrow> ending \<times> world" where
  "ble_worker E c passes s =
    (case ble_main E c passes s of
       (Exception, s') \<Rightarrow>
         (Exception,
          msgq_put (EnableConnect True)
            (msgq_put (Status Error Red) (msgq_put (Log LogError) s')))
     | (e, s') \<Rightarrow> (e, s'))"

subsection \<open>Reading a trace\<close>

text \<open>The value of a string of hexadecimal digits, most significant digit first.\<close>

definition hex_digit_value :: "char \<Rightarrow> nat" where
  "hex_digit_value ch = (if ch \<in> set ''0123456789'' then of_char ch - 48 else of_char ch - 55)"

definition hex_value :: "string \<Rightarrow> nat" where
  "hex_value cs = foldl (\<lambda>acc ch. 16 * acc + hex_digit_value ch) 0 cs"

text \<open>The \<^verbatim>\<open>pydirectinput\<close> calls issued, and those that returned.\<close>

fun key_calls :: "event list \<Rightarrow> key_call list" where
  "key_calls [] = []"
| "key_calls (Key c r # es) = c # key_calls es"
| "key_calls (e # es) = key_calls es"

definition is_key_down :: "key_call \<Rightarrow> bool" where
  "is_key_down c = (case c of KeyDown k \<Rightarrow> True | _ \<Rightarrow> False)"

definition is_key_up :: "key_call \<Rightarrow> bool" where
  "is_key_up c = (case c of KeyUp k \<Rightarrow> True | _ \<Rightarrow> False)"

definition key_downs :: "event list \<Rightarrow> nat" where
  "key_downs es = length (filter is_key_down (key_calls es))"

definition key_ups :: "event list \<Rightarrow> nat" where
  "key_ups es = length (filter is_key_up (key_calls es))"

fun returned_key_calls :: "event list \<Rightarrow> key_call list" where
  "returned_key_calls [] = []"
| "returned_key_calls (Key c Returned # es) = c # returned_key_calls es"
| "returned_key_calls (e # es) = returned_key_calls es"

definition key_downs_returned :: "event list \<Rightarrow> nat" where
  "key_downs_returned es = length (filter is_key_down (returned_key_calls es))"

definition new_events :: "world \<Rightarrow> world \<Rightarrow> event list" where
  "new_events s s' = drop (length (trace s)) (trace s')"

text \<open>The key string a logical key name is injected as (empty: nothing is injected).\<close>

definition pydi_name :: "string \<Rightarrow> string" where
  "pydi_name k = (case to_pydi_key k of Some k' \<Rightarrow> k' | None \<Rightarrow> [])"

text \<open>
  \<open>holds button s\<close> is 1 when the dictionary has an entry for the button whose key
  is one that is injected, and 0 otherwise; \<open>held_keys\<close> are the keys of the entries
  that are injected, in the order of the dictionary.
\<close>

definition holds :: "string \<Rightarrow> world \<Rightarrow> nat" where
  "holds button s =
    (case map_of (HELD_BY_BUTTON s) button of
       None \<Rightarrow> 0
     | Some k \<Rightarrow> (if k = [] then 0 else 1))"

definition held_keys :: "world \<Rightarrow> string list" where
  "held_keys s = filter (\<lambda>k. k \<noteq> []) (map snd (HELD_BY_BUTTON s))"

text \<open>How the call \<open>c\<close> ends when it is issued after the trace \<open>t\<close>.\<close>

definition completion_of :: "env \<Rightarrow> event list \<Rightarrow> key_call \<Rightarrow> completion" where
  "completion_of E t c = (if key_raises E t c then Raised else Returned)"

subsection \<open>Particular outsides and settings\<close>

text \<open>
  An outside where every key injection raises (as \<^verbatim>\<open>pydirectinput\<close> does while its
  fail-safe is triggered), one where none does, and one where only the release of the
  right arrow does.
\<close>

definition raising_env :: env where
  "raising_env = \<lparr>key_raises = (\<lambda>t c. True)\<rparr>"

definition quiet_env :: env where
  "quiet_env = \<lparr>key_raises = (\<lambda>t c. False)\<rparr>"

definition right_release_fails_env :: env where
  "right_release_fails_env = \<lparr>key_raises = (\<lambda>t c. c = KeyUp ''right'')\<rparr>"

text \<open>The source's setting with ``Right Up'' made a hold button.\<close>

definition right_up_hold_config :: config where
  "right_up_hold_config =
    source_config\<lparr>button_behavior := (button_behavior source_config)(''Right Up'' \<mapsto> ''hold'')\<rparr>"

text \<open>The source's setting with ``Right Up'' disabled (``remove or set None to disable'').\<close>

definition right_up_disabled_config :: config where
  "right_up_disabled_config =
    source_config\<lparr>button_to_key := (button_to_key source_config)(''Right Up'' := None)\<rparr>"

text \<open>
  Three states the program reaches from its start. In the source's setting, a press and
  a release of ``Right Up'', both numbered 1, have been handled. With ``Right Up'' a hold
  button: a press numbered 5 has been handled and its release has not come; and a
  release numbered 1 has been handled.
\<close>

definition right_up_tapped_once :: world where
  "right_up_tapped_once =
    handle_frames quiet_env source_config
      [([0x00, 0x01, 0x81], False), ([0x00, 0x01, 0x01], False)] initial_world"

definition right_up_held_5 :: world where
  "right_up_held_5 =
    handle_frames quiet_env right_up_hold_config [([0x00, 0x01, 0x85], False)] initial_world"

definition right_up_released_1 :: world where
  "right_up_released_1 =
    handle_frames quiet_env right_up_hold_config [([0x00, 0x01, 0x01], False)] initial_world"

text \<open>Both steer buttons held, as after a press of each.\<close>

definition both_steers_held :: world where
  "both_steers_held =
    initial_world\<lparr>HELD_BY_BUTTON :=
      [(''Right Steer'', ''ArrowRight''), (''Left Steer'', ''ArrowLeft'')]\<rparr>"

subsection \<open>Reading the trace of the loop\<close>

text \<open>A key injection.\<close>

definition is_key :: "event \<Rightarrow> bool" where
  "is_key e = (case e of Key c r \<Rightarrow> True | _ \<Rightarrow> False)"

text \<open>
  What the handler and the release of keys can add to the trace: key injections and log
  lines. \<open>local_step s s'\<close>: from \<open>s\<close> to \<open>s'\<close> only such events were added, and the
  stop flag and \<^verbatim>\<open>_notify_on\<close> are as before.
\<close>

definition is_local :: "event \<Rightarrow> bool" where
  "is_local e = (case e of Key c r \<Rightarrow> True | Put (Log l) \<Rightarrow> True | _ \<Rightarrow> False)"

definition local_step :: "world \<Rightarrow> world \<Rightarrow> bool" where
  "local_step s s' \<longleftrightarrow>
     (\<exists>new. trace s' = trace s @ new \<and> (\<forall>e \<in> set new. is_local e))
     \<and> stop_event s' = stop_event s \<and> notify_on s' = notify_on s"

text \<open>The delays slept, the statuses put on the queue, the calls of the BLE library.\<close>

fun sleeps :: "event list \<Rightarrow> nat list" where
  "sleeps [] = []"
| "sleeps (Sleep ms # es) = ms # sleeps es"
| "sleeps (e # es) = sleeps es"

fun statuses :: "event list \<Rightarrow> status_text list" where
  "statuses [] = []"
| "statuses (Put (Status t col) # es) = t # statuses es"
| "statuses (e # es) = statuses es"

fun ble_calls :: "event list \<Rightarrow> ble_call list" where
  "ble_calls [] = []"
| "ble_calls (Ble b # es) = b # ble_calls es"
| "ble_calls (e # es) = ble_calls es"

text \<open>The trace from the first \<^verbatim>\<open>stop_event.set()\<close> on.\<close>

definition after_stop :: "event list \<Rightarrow> event list" where
  "after_stop es = dropWhile (\<lambda>e. e \<noteq> StopSet) es"

text \<open>What \<open>teardown\<close> adds to the trace, and what follows the cleanup after listening.\<close>

definition teardown_events :: "attempt \<Rightarrow> world \<Rightarrow> event list" where
  "teardown_events a s =
     (if stop_in_cleanup a \<and> \<not> stop_event s then [StopSet] else [])
     @ (if notify_on s then
          [Ble StopNotify,
           Put (Log (if stop_notify_raises a then LogStopNotifyError
                     else LogNotificationsStopped))]
        else [])
     @ (if still_connected a then
          [Ble Disconnect,
           Put (Log (if disconnect_raises a then LogDisconnectError else LogDisconnected))]
        else [])"

definition final_events :: "attempt \<Rightarrow> bool \<Rightarrow> event list" where
  "final_events a stopped =
     (if stopped then [Put (Status Disconnected Gray), Put (EnableConnect True)]
      else [Put (Status Reconnecting Orange), Put (Log LogWillRetry), Sleep RECONNECT_DELAY_MS]
           @ (if stop_in_retry_sleep a then [StopSet] else []))"



text \<open>
  Kinds of pass. \<open>link_dropped\<close>: the connect and the subscription succeed, the link
  drops, and no stop is requested up to the end of the cleanup; \<open>link_drops\<close>: nor
  during the delay that follows. \<open>connect_fails\<close>: the connect returns without a
  connection, and no stop is requested. \<open>scan_finds\<close>: a scan, if one is made, finds
  the device, and no stop is requested during it.
\<close>

definition link_dropped :: "attempt \<Rightarrow> bool" where
  "link_dropped a \<longleftrightarrow>
     connect_result a = IsConnected \<and> \<not> start_notify_raises a \<and> listen_end a = LinkDropped
     \<and> \<not> stop_at_head a \<and> \<not> stop_in_connect a \<and> \<not> stop_in_start_notify a
     \<and> \<not> stop_in_cleanup a"

definition link_drops :: "attempt \<Rightarrow> bool" where
  "link_drops a \<longleftrightarrow> link_dropped a \<and> \<not> stop_in_retry_sleep a"

definition connect_fails :: "attempt \<Rightarrow> bool" where
  "connect_fails a \<longleftrightarrow>
     connect_result a = NotConnected
     \<and> \<not> stop_at_head a \<and> \<not> stop_in_connect a \<and> \<not> stop_in_connect_sleep a
     \<and> \<not> stop_in_cleanup a"

definition scan_finds :: "attempt \<Rightarrow> bool" where
  "scan_finds a \<longleftrightarrow>
     \<not> stop_at_head a \<and> \<not> stop_in_scan a
     \<and> (case discovered a of
          ScanRaises \<Rightarrow> False
        | ScanFinds devices \<Rightarrow> find_device_by_prefix DEVICE_NAME_PREFIX devices \<noteq> None)"

definition recovers :: "attempt \<Rightarrow> bool" where
  "recovers a \<longleftrightarrow> scan_finds a \<and> (link_drops a \<or> connect_fails a)"




text \<open>
  A device that the scan accepts, and passes: one where all goes well until the link
  drops; the same with a press of ``Right Steer'' received before the drop; one where
  the connect returns without a connection; one whose scan finds nothing; one whose
  connect raises; one where Disconnect is clicked during the scan; one where it is clicked
  just after the pass has begun; one where it is clicked while listening; and one where it
  is clicked during the delay before the reconnect.
\<close>

definition kickr :: device where
  "kickr = \<lparr>dev_name = Some ''KICKR BIKE SHIFT 1234'', dev_address = ''C0:FF:EE:00:00:01''\<rparr>"

definition drop_pass :: attempt where
  "drop_pass =
    \<lparr>stop_at_head = False, discovered = ScanFinds [kickr], stop_in_scan = False,
     connect_result = IsConnected, stop_in_connect = False, stop_in_connect_sleep = False,
     start_notify_raises = False, stop_in_start_notify = False,
     frames = [], listen_end = LinkDropped,
     stop_in_cleanup = False, stop_notify_raises = False, still_connected = False,
     disconnect_raises = False, stop_in_retry_sleep = False\<rparr>"

definition steer_drop_pass :: attempt where
  "steer_drop_pass = drop_pass\<lparr>frames := [([0x00, 0x08, 0x81], False)]\<rparr>"

definition no_connect_pass :: attempt where
  "no_connect_pass = drop_pass\<lparr>connect_result := NotConnected\<rparr>"

definition nothing_found_pass :: attempt where
  "nothing_found_pass = drop_pass\<lparr>discovered := ScanFinds []\<rparr>"

definition connect_raises_pass :: attempt where
  "connect_raises_pass = drop_pass\<lparr>connect_result := ConnectRaises\<rparr>"

definition stop_in_scan_pass :: attempt where
  "stop_in_scan_pass = drop_pass\<lparr>stop_in_scan := True, still_connected := True\<rparr>"

definition stop_at_head_pass :: attempt where
  "stop_at_head_pass = drop_pass\<lparr>stop_at_head := True, still_connected := True\<rparr>"

definition stop_click_pass :: attempt where
  "stop_click_pass = drop_pass\<lparr>listen_end := StopClicked, still_connected := True\<rparr>"

definition stop_in_retry_pass :: attempt where
  "stop_in_retry_pass = drop_pass\<lparr>stop_in_retry_sleep := True\<rparr>"

section \<open>Properties\<close>

subsection \<open>Auxiliary facts\<close>

lemma key_calls_append: "key_calls (xs @ ys) = key_calls xs @ key_calls ys"
  by (induction xs rule: key_calls.induct) simp_all

lemma returned_key_calls_append:
  "returned_key_calls (xs @ ys) = returned_key_calls xs @ returned_key_calls ys"
  by (induction xs rule: returned_key_calls.induct) simp_all

lemma to_pydi_key_nonempty: "k \<noteq> [] \<Longrightarrow> \<exists>k'. to_pydi_key k = Some k' \<and> k' \<noteq> []"
  by (simp add: to_pydi_key_def split: option.splits)

lemma send_key_up_cases:
  "(k = [] \<and> send_key_up E k s = (Returned, s)) \<or>
   (k \<noteq> [] \<and> (\<exists>r. send_key_up E k s = (r, emit (Key (KeyUp (pydi_name k)) r) s)))"
  using to_pydi_key_nonempty[of k]
  by (cases "k = []") (auto simp: send_key_up_def pydirectinput_def pydi_name_def to_pydi_key_def)

lemma send_key_down_cases:
  "(k = [] \<and> send_key_down E k s = (Returned, s)) \<or>
   (k \<noteq> [] \<and> (\<exists>r. send_key_down E k s = (r, emit (Key (KeyDown (pydi_name k)) r) s)))"
  using to_pydi_key_nonempty[of k]
  by (cases "k = []") (auto simp: send_key_down_def pydirectinput_def pydi_name_def to_pydi_key_def)

lemma hex_digit_mem: "hex_digit n \<in> set ''0123456789ABCDEF''"
  unfolding hex_digit_def by (rule nth_mem) simp

lemma hex_digit_value_inv: "n < 16 \<Longrightarrow> hex_digit_value (hex_digit n) = n"
proof -
  assume "n < 16"
  then have "n \<in> set [0..<16]" by simp
  then have "n \<in> {0,1,2,3,4,5,6,7,8,9,10,11,12,13,14,15}"
    unfolding upt_def by (simp add: numeral_eq_Suc)
  then show ?thesis
    unfolding hex_digit_def hex_digit_value_def by (elim insertE emptyE) simp_all
qed

lemma hex_value_hex2: "hex_value (hex2 p @ hex2 q) = 256 * unat p + unat q"
proof -
  have p: "unat p div 16 < 16"
    using unsigned_less [of p, where 'a=nat] by (simp add: less_mult_imp_div_less)
  have q: "unat q div 16 < 16"
    using unsigned_less [of q, where 'a=nat] by (simp add: less_mult_imp_div_less)
  show ?thesis
    unfolding hex_value_def hex2_def by (simp add: hex_digit_value_inv p q)
qed

lemma hex2_upper: "set (hex2 b) \<subseteq> set ''0123456789ABCDEF''"
  unfolding hex2_def using hex_digit_mem by simp

lemma press_bit: "(r AND 0x80 \<noteq> 0) = bit (r::byte) 7"
proof -
  have e: "(0x80::byte) = 2 ^ 7" by simp
  have "(r AND 2 ^ 7 = 0) = (\<not> bit r 7)" by (rule and_exp_eq_0_iff_not_bit)
  then show ?thesis unfolding e by blast
qed

lemma low_seven: "unat ((r::byte) AND 0x7F) = unat r mod 128"
proof -
  have "(0x7F::byte) = mask 7" by (simp add: mask_eq_exp_minus_1)
  then have "r AND 0x7F = take_bit 7 r" by (simp only: take_bit_eq_mask)
  then have "unat (r AND 0x7F) = take_bit 7 (unat r)" by (simp only: unsigned_take_bit_eq)
  then show ?thesis by (simp only: take_bit_eq_mod) simp
qed

lemma parse_None_iff:
  "parse_short_frame payload = None \<longleftrightarrow>
     length payload \<noteq> 3 \<or> hex2 (payload ! 0) @ hex2 (payload ! 1) \<notin> fst ` set PREFIX_TO_BUTTON"
  unfolding parse_short_frame_def map_of_eq_None_iff [symmetric]
  by (simp add: Let_def split: list.splits option.splits)

lemma parse_Some:
  assumes "parse_short_frame payload = Some evt"
  shows "length payload = 3"
    and "prefix evt = hex2 (payload ! 0) @ hex2 (payload ! 1)"
    and "map_of PREFIX_TO_BUTTON (prefix evt) = Some (name evt)"
    and "type evt = (if payload ! 2 AND 0x80 \<noteq> 0 then Press else Release)"
    and "seq evt = unat (payload ! 2 AND 0x7F)"
    and "rrHex evt = hex2 (payload ! 2)"
  using assms unfolding parse_short_frame_def
  by (auto simp: Let_def split: list.splits option.splits)

subsection \<open>The frame decoder\<close>

text \<open>
  Claim C3. \<open>parse_short_frame\<close> returns nothing exactly when the payload is not three
  bytes long or the prefix built from its first two bytes is not a key of
  \<open>PREFIX_TO_BUTTON\<close>. Otherwise the event's prefix is that string: four upper-case
  hexadecimal digits whose value is the first byte times 256 plus the second (most
  significant byte first). The event is a press iff bit 7 of the third byte is set and a
  release otherwise, and its sequence number is the low seven bits of the third byte,
  whichever of the two it is.
\<close>

theorem C3_parse_short_frame:
  "(parse_short_frame payload = None \<longleftrightarrow>
      (length payload \<noteq> 3
       \<or> hex2 (payload ! 0) @ hex2 (payload ! 1) \<notin> fst ` set PREFIX_TO_BUTTON))
   \<and> (\<forall>evt. parse_short_frame payload = Some evt \<longrightarrow>
         prefix evt = hex2 (payload ! 0) @ hex2 (payload ! 1)
         \<and> length (prefix evt) = 4
         \<and> set (prefix evt) \<subseteq> set ''0123456789ABCDEF''
         \<and> hex_value (prefix evt) = 256 * unat (payload ! 0) + unat (payload ! 1)
         \<and> (type evt = Press \<longleftrightarrow> bit (payload ! 2) 7)
         \<and> (type evt = Release \<longleftrightarrow> \<not> bit (payload ! 2) 7)
         \<and> seq evt = unat (payload ! 2) mod 128)"
proof (intro conjI allI impI)
  show "parse_short_frame payload = None \<longleftrightarrow>
      (length payload \<noteq> 3
       \<or> hex2 (payload ! 0) @ hex2 (payload ! 1) \<notin> fst ` set PREFIX_TO_BUTTON)"
    by (rule parse_None_iff)
next
  fix evt assume a: "parse_short_frame payload = Some evt"
  note pf = parse_Some(2) [OF a] and ty = parse_Some(4) [OF a] and sq = parse_Some(5) [OF a]
  show "prefix evt = hex2 (payload ! 0) @ hex2 (payload ! 1)" by (rule pf)
  show "length (prefix evt) = 4" using pf by (simp add: hex2_def)
  show "set (prefix evt) \<subseteq> set ''0123456789ABCDEF''"
    using hex2_upper [of "payload ! 0"] hex2_upper [of "payload ! 1"]
    by (simp only: pf set_append Un_subset_iff)
  show "hex_value (prefix evt) = 256 * unat (payload ! 0) + unat (payload ! 1)"
    by (simp only: pf hex_value_hex2)
  show "type evt = Press \<longleftrightarrow> bit (payload ! 2) 7"
    using ty press_bit [of "payload ! 2"] by simp
  show "type evt = Release \<longleftrightarrow> \<not> bit (payload ! 2) 7"
    using ty press_bit [of "payload ! 2"] by simp
  show "seq evt = unat (payload ! 2) mod 128"
    using sq by (simp only: low_seven)
qed

theorem C3_parse_short_frame_witness:
  "parse_short_frame [0x00, 0x01, 0x81] =
     Some \<lparr>prefix = ''0001'', name = ''Right Up'', type = Press, seq = 1, rrHex = ''81''\<rparr>
   \<and> hex_value ''0001'' = 1
   \<and> bit (0x81 :: byte) 7
   \<and> parse_short_frame [0x00, 0x01, 0x01] =
     Some \<lparr>prefix = ''0001'', name = ''Right Up'', type = Release, seq = 1, rrHex = ''01''\<rparr>
   \<and> parse_short_frame [0x00, 0x01] = None
   \<and> parse_short_frame [0x00, 0x01, 0x81, 0x00] = None
   \<and> parse_short_frame [0x00, 0x03, 0x81] = None"
proof -
  have e: "parse_short_frame [0x00, 0x01, 0x81] =
     Some \<lparr>prefix = ''0001'', name = ''Right Up'', type = Press, seq = 1, rrHex = ''81''\<rparr>"
    by (simp add: parse_short_frame_def hex2_def hex_digit_def PREFIX_TO_BUTTON_def)
  have n: "parse_short_frame [0x00, 0x03, 0x81] = None"
    using C3_parse_short_frame [of "[0x00, 0x03, 0x81]"]
    by (simp add: hex2_def hex_digit_def PREFIX_TO_BUTTON_def)
  show ?thesis
    using C3_parse_short_frame [of "[0x00, 0x01, 0x81]"] e n
    by (simp add: parse_short_frame_def hex2_def hex_digit_def PREFIX_TO_BUTTON_def)
qed

subsection \<open>De-duplication\<close>

text \<open>
  Claim C4. An event is processed when \<open>already_handled\<close> returns \<open>False\<close>. It
  returns \<open>True\<close> (suppress) iff the sequence stored for the pair of prefix and event
  type equals the incoming one, and then changes nothing; otherwise it stores the
  incoming sequence and returns \<open>False\<close>. So the same triple a second time in a row is
  always suppressed, a different sequence for the same pair after that is processed, and
  a pair seen for the first time is processed and gets its entry.
\<close>

theorem C4_already_handled:
  "(fst (already_handled pfx ev sq s) \<longleftrightarrow> last_seq s (pfx, ev) = Some sq)
   \<and> (last_seq s (pfx, ev) = Some sq \<longrightarrow> snd (already_handled pfx ev sq s) = s)
   \<and> (last_seq s (pfx, ev) \<noteq> Some sq \<longrightarrow>
        snd (already_handled pfx ev sq s) = s\<lparr>last_seq := (last_seq s)((pfx, ev) \<mapsto> sq)\<rparr>)
   \<and> fst (already_handled pfx ev sq (snd (already_handled pfx ev sq s)))
   \<and> (sq' \<noteq> sq \<longrightarrow>
        \<not> fst (already_handled pfx ev sq'
                 (snd (already_handled pfx ev sq (snd (already_handled pfx ev sq s))))))
   \<and> (last_seq s (pfx, ev) = None \<longrightarrow>
        \<not> fst (already_handled pfx ev sq s)
        \<and> last_seq (snd (already_handled pfx ev sq s)) (pfx, ev) = Some sq)"
  by (simp add: already_handled_def Let_def)

theorem C4_already_handled_witness:
  "\<not> fst (already_handled ''0001'' Press 1 initial_world)
   \<and> fst (already_handled ''0001'' Press 1 (snd (already_handled ''0001'' Press 1 initial_world)))
   \<and> \<not> fst (already_handled ''0001'' Press 2
         (snd (already_handled ''0001'' Press 1
           (snd (already_handled ''0001'' Press 1 initial_world)))))"
proof -
  have f: "last_seq initial_world (''0001'', Press) = None"
    by (simp add: initial_world_def)
  have d: "(2::nat) \<noteq> 1" by simp
  show ?thesis
    using C4_already_handled [of "''0001''" Press 1 initial_world 2] f d by blast
qed

lemma new_events_append: "trace s' = trace s @ new \<Longrightarrow> new_events s s' = new"
  by (simp add: new_events_def)

lemma emit_simps [simp]:
  "trace (emit e s) = trace s @ [e]"
  "HELD_BY_BUTTON (emit e s) = HELD_BY_BUTTON s"
  "last_seq (emit e s) = last_seq s"
  "stop_event (emit e s) = stop_event s"
  "notify_on (emit e s) = notify_on s"
  by (simp_all add: emit_def)

lemma release_if_held_shape:
  "\<exists>r new. release_if_held E b s =
      (r, s\<lparr>HELD_BY_BUTTON := AList.delete b (HELD_BY_BUTTON s), trace := trace s @ new\<rparr>)
    \<and> new = (case map_of (HELD_BY_BUTTON s) b of
               None \<Rightarrow> []
             | Some k \<Rightarrow> (if k = [] then [] else [Key (KeyUp (pydi_name k)) r]))
    \<and> (map_of (HELD_BY_BUTTON s) b = None \<longrightarrow> r = Returned)"
proof (cases "map_of (HELD_BY_BUTTON s) b")
  case None
  then show ?thesis by (simp add: release_if_held_def)
next
  case (Some k)
  show ?thesis
  proof (cases "k = []")
    case True
    with Some show ?thesis by (simp add: release_if_held_def)
  next
    case False
    let ?s1 = "s\<lparr>HELD_BY_BUTTON := AList.delete b (HELD_BY_BUTTON s)\<rparr>"
    from False send_key_up_cases [of k E ?s1] obtain r where
      "send_key_up E k ?s1 = (r, emit (Key (KeyUp (pydi_name k)) r) ?s1)" by blast
    with Some False show ?thesis by (simp add: release_if_held_def emit_def)
  qed
qed

lemma map_of_delete_same: "map_of (AList.delete b xs) b = None"
  by (simp add: delete_conv)

lemma delete_absent: "map_of xs b = None \<Longrightarrow> AList.delete b xs = xs"
  by (simp add: delete_id map_of_eq_None_iff)

subsection \<open>Releasing one button\<close>

text \<open>
  Claim C10. \<open>release_if_held\<close> pops the entry before it injects the key-up. So after
  any call, whether the injection returned or raised, the dictionary has no entry for
  the button (and its other entries are as before); the call issued at most the one
  key-up of the popped entry; and a second call for the same button returns at once,
  changing nothing and injecting nothing.
\<close>

theorem C10_release_if_held:
  "map_of (HELD_BY_BUTTON (snd (release_if_held E b s))) b = None
   \<and> HELD_BY_BUTTON (snd (release_if_held E b s)) = AList.delete b (HELD_BY_BUTTON s)
   \<and> release_if_held E b (snd (release_if_held E b s)) = (Returned, snd (release_if_held E b s))
   \<and> new_events s (snd (release_if_held E b s)) =
       (case map_of (HELD_BY_BUTTON s) b of
          None \<Rightarrow> []
        | Some k \<Rightarrow>
            (if k = [] then [] else [Key (KeyUp (pydi_name k)) (fst (release_if_held E b s))]))"
proof -
  from release_if_held_shape [of E b s] obtain r new where
    e: "release_if_held E b s =
      (r, s\<lparr>HELD_BY_BUTTON := AList.delete b (HELD_BY_BUTTON s), trace := trace s @ new\<rparr>)"
    and nw: "new = (case map_of (HELD_BY_BUTTON s) b of
               None \<Rightarrow> []
             | Some k \<Rightarrow> (if k = [] then [] else [Key (KeyUp (pydi_name k)) r]))"
    by blast
  let ?s' = "s\<lparr>HELD_BY_BUTTON := AList.delete b (HELD_BY_BUTTON s), trace := trace s @ new\<rparr>"
  have f: "fst (release_if_held E b s) = r" and sn: "snd (release_if_held E b s) = ?s'"
    by (simp_all add: e)
  have h: "HELD_BY_BUTTON ?s' = AList.delete b (HELD_BY_BUTTON s)" by simp
  have n: "map_of (HELD_BY_BUTTON ?s') b = None" by (simp add: map_of_delete_same)
  have again: "release_if_held E b ?s' = (Returned, ?s')"
    using n by (simp add: release_if_held_def delete_absent map_of_delete_same)
  have ne: "new_events s ?s' = new"
    by (rule new_events_append) simp
  show ?thesis
    unfolding f sn
  proof (intro conjI)
    show "map_of (HELD_BY_BUTTON ?s') b = None" by (rule n)
    show "HELD_BY_BUTTON ?s' = AList.delete b (HELD_BY_BUTTON s)" by (rule h)
    show "release_if_held E b ?s' = (Returned, ?s')" by (rule again)
    show "new_events s ?s' =
       (case map_of (HELD_BY_BUTTON s) b of
          None \<Rightarrow> []
        | Some k \<Rightarrow> (if k = [] then [] else [Key (KeyUp (pydi_name k)) r]))"
      unfolding ne by (rule nw)
  qed
qed

text \<open>
  ``Right Steer'' held, and an outside where the release of the right arrow raises.
\<close>

theorem C10_release_if_held_witness:
  "fst (release_if_held right_release_fails_env ''Right Steer'' both_steers_held) = Raised
   \<and> HELD_BY_BUTTON (snd (release_if_held right_release_fails_env ''Right Steer'' both_steers_held))
       = [(''Left Steer'', ''ArrowLeft'')]
   \<and> new_events both_steers_held
         (snd (release_if_held right_release_fails_env ''Right Steer'' both_steers_held))
       = [Key (KeyUp ''right'') Raised]
   \<and> release_if_held right_release_fails_env ''Right Steer''
         (snd (release_if_held right_release_fails_env ''Right Steer'' both_steers_held))
       = (Returned, snd (release_if_held right_release_fails_env ''Right Steer'' both_steers_held))"
proof -
  have r: "fst (release_if_held right_release_fails_env ''Right Steer'' both_steers_held) = Raised"
    by (simp add: release_if_held_def both_steers_held_def initial_world_def send_key_up_def
        to_pydi_key_def KEY_NAME_MAP_def pydirectinput_def right_release_fails_env_def)
  have m: "map_of (HELD_BY_BUTTON both_steers_held) ''Right Steer'' = Some ''ArrowRight''"
    by (simp add: both_steers_held_def)
  have d: "AList.delete ''Right Steer'' (HELD_BY_BUTTON both_steers_held)
           = [(''Left Steer'', ''ArrowLeft'')]"
    by (simp add: both_steers_held_def AList.delete_eq)
  have p: "pydi_name ''ArrowRight'' = ''right''"
    by (simp add: pydi_name_def to_pydi_key_def KEY_NAME_MAP_def)
  show ?thesis
    using C10_release_if_held [of right_release_fails_env "''Right Steer''" both_steers_held]
    unfolding m d r by (simp add: p r)
qed

lemma release_one_shape:
  "\<exists>new. release_one E (b, k) s =
      (Returned, s\<lparr>HELD_BY_BUTTON := AList.delete b (HELD_BY_BUTTON s), trace := trace s @ new\<rparr>)
    \<and> (\<forall>e \<in> set new. \<exists>k' r. e = Key (KeyUp k') r)
    \<and> key_calls new = map (\<lambda>k. KeyUp (pydi_name k)) (filter (\<lambda>k. k \<noteq> []) [k])"
proof (cases "k = []")
  case True
  then have "send_key_up E k s = (Returned, s)" using send_key_up_cases [of k E s] by blast
  with True show ?thesis
    by (intro exI [of _ "[]"]) (simp add: release_one_def)
next
  case False
  then obtain r where r: "send_key_up E k s = (r, emit (Key (KeyUp (pydi_name k)) r) s)"
    using send_key_up_cases [of k E s] by blast
  show ?thesis
    using False r
    by (intro exI [of _ "[Key (KeyUp (pydi_name k)) r]"])
       (cases r; simp add: release_one_def emit_def)
qed

lemma filter_delete:
  "filter (\<lambda>p. fst p \<notin> A) (AList.delete b h) = filter (\<lambda>p. fst p \<notin> insert b A) h"
  by (induction h) (auto simp: AList.delete_eq)

lemma release_loop_shape:
  "\<exists>new. release_loop E xs s =
      (Returned,
       s\<lparr>HELD_BY_BUTTON := filter (\<lambda>p. fst p \<notin> fst ` set xs) (HELD_BY_BUTTON s),
         trace := trace s @ new\<rparr>)
    \<and> (\<forall>e \<in> set new. \<exists>k' r. e = Key (KeyUp k') r)
    \<and> key_calls new = map (\<lambda>k. KeyUp (pydi_name k)) (filter (\<lambda>k. k \<noteq> []) (map snd xs))"
proof (induction xs arbitrary: s)
  case Nil
  show ?case by (intro exI [of _ "[]"]) simp
next
  case (Cons x xs)
  obtain b k where x: "x = (b, k)" by (cases x)
  let ?s1 = "\<lambda>new. s\<lparr>HELD_BY_BUTTON := AList.delete b (HELD_BY_BUTTON s), trace := trace s @ new\<rparr>"
  from release_one_shape [of E b k s] obtain new1 where
    one: "release_one E (b, k) s = (Returned, ?s1 new1)"
    and k1: "\<forall>e \<in> set new1. \<exists>k' r. e = Key (KeyUp k') r"
    and c1: "key_calls new1 = map (\<lambda>k. KeyUp (pydi_name k)) (filter (\<lambda>k. k \<noteq> []) [k])"
    by blast
  from Cons.IH [of "?s1 new1"] obtain new2 where
    rest: "release_loop E xs (?s1 new1) =
      (Returned,
       (?s1 new1)\<lparr>HELD_BY_BUTTON := filter (\<lambda>p. fst p \<notin> fst ` set xs) (HELD_BY_BUTTON (?s1 new1)),
         trace := trace (?s1 new1) @ new2\<rparr>)"
    and k2: "\<forall>e \<in> set new2. \<exists>k' r. e = Key (KeyUp k') r"
    and c2: "key_calls new2 = map (\<lambda>k. KeyUp (pydi_name k)) (filter (\<lambda>k. k \<noteq> []) (map snd xs))"
    by blast
  have f: "filter (\<lambda>p. fst p \<notin> fst ` set xs) (AList.delete b (HELD_BY_BUTTON s))
         = filter (\<lambda>p. fst p \<notin> fst ` set (x # xs)) (HELD_BY_BUTTON s)"
    unfolding x by (simp add: filter_delete)
  have "release_loop E (x # xs) s =
      (Returned,
       s\<lparr>HELD_BY_BUTTON := filter (\<lambda>p. fst p \<notin> fst ` set (x # xs)) (HELD_BY_BUTTON s),
         trace := trace s @ (new1 @ new2)\<rparr>)"
    using one rest f by (simp add: x)
  moreover have "\<forall>e \<in> set (new1 @ new2). \<exists>k' r. e = Key (KeyUp k') r"
    using k1 k2 by auto
  moreover have "key_calls (new1 @ new2) =
      map (\<lambda>k. KeyUp (pydi_name k)) (filter (\<lambda>k. k \<noteq> []) (map snd (x # xs)))"
    using c1 c2 by (simp add: key_calls_append x)
  ultimately show ?case by blast
qed

lemma release_all_shape:
  "\<exists>new. release_all_held_keys E s = (Returned, s\<lparr>HELD_BY_BUTTON := [], trace := trace s @ new\<rparr>)
    \<and> (\<forall>e \<in> set new. \<exists>k' r. e = Key (KeyUp k') r)
    \<and> key_calls new = map (\<lambda>k. KeyUp (pydi_name k)) (held_keys s)"
proof -
  have "filter (\<lambda>p. fst p \<notin> fst ` set (HELD_BY_BUTTON s)) (HELD_BY_BUTTON s) = []"
    by (simp add: filter_empty_conv)
  then show ?thesis
    using release_loop_shape [of E "HELD_BY_BUTTON s" s]
    by (simp add: release_all_held_keys_def held_keys_def)
qed

subsection \<open>Releasing everything\<close>

text \<open>
  Claim C5. \<open>release_all_held_keys\<close> never raises, whatever the injections do; it
  leaves the dictionary empty; and what it adds to the trace is exactly one key-up call
  for every entry (for its key, in the order of the dictionary), each issued whether or
  not an earlier one raised. (An entry whose key is the empty string has nothing to
  inject; the handler never stores one.)
\<close>

theorem C5_release_all_held_keys:
  "fst (release_all_held_keys E s) = Returned
   \<and> HELD_BY_BUTTON (snd (release_all_held_keys E s)) = []
   \<and> trace (snd (release_all_held_keys E s))
       = trace s @ new_events s (snd (release_all_held_keys E s))
   \<and> key_calls (new_events s (snd (release_all_held_keys E s)))
       = map (\<lambda>k. KeyUp (pydi_name k)) (held_keys s)
   \<and> (\<forall>e \<in> set (new_events s (snd (release_all_held_keys E s))). \<exists>k r. e = Key (KeyUp k) r)"
proof -
  from release_all_shape [of E s] obtain new where
    e: "release_all_held_keys E s = (Returned, s\<lparr>HELD_BY_BUTTON := [], trace := trace s @ new\<rparr>)"
    and k: "\<forall>e \<in> set new. \<exists>k' r. e = Key (KeyUp k') r"
    and c: "key_calls new = map (\<lambda>k. KeyUp (pydi_name k)) (held_keys s)"
    by blast
  have n: "new_events s (snd (release_all_held_keys E s)) = new"
    by (rule new_events_append) (simp add: e)
  show ?thesis unfolding n using k c by (simp add: e)
qed

text \<open>
  Both steer buttons held, and an outside where the release of the right arrow raises:
  the left arrow is released all the same.
\<close>

theorem C5_release_all_held_keys_witness:
  "release_all_held_keys right_release_fails_env both_steers_held =
     (Returned,
      both_steers_held
        \<lparr>HELD_BY_BUTTON := [],
          trace := [Key (KeyUp ''right'') Raised, Key (KeyUp ''left'') Returned]\<rparr>)
   \<and> key_calls (new_events both_steers_held
         (snd (release_all_held_keys right_release_fails_env both_steers_held)))
       = [KeyUp ''right'', KeyUp ''left'']"
proof -
  have e: "release_all_held_keys right_release_fails_env both_steers_held =
     (Returned,
      both_steers_held
        \<lparr>HELD_BY_BUTTON := [],
          trace := [Key (KeyUp ''right'') Raised, Key (KeyUp ''left'') Returned]\<rparr>)"
    by (simp add: release_all_held_keys_def release_one_def both_steers_held_def
        initial_world_def send_key_up_def to_pydi_key_def KEY_NAME_MAP_def pydirectinput_def
        right_release_fails_env_def emit_def AList.delete_eq)
  have h: "map (\<lambda>k. KeyUp (pydi_name k)) (held_keys both_steers_held)
           = [KeyUp ''right'', KeyUp ''left'']"
    by (simp add: held_keys_def both_steers_held_def pydi_name_def to_pydi_key_def
        KEY_NAME_MAP_def)
  from C5_release_all_held_keys [of right_release_fails_env both_steers_held]
  have "key_calls (new_events both_steers_held
         (snd (release_all_held_keys right_release_fails_env both_steers_held)))
       = map (\<lambda>k. KeyUp (pydi_name k)) (held_keys both_steers_held)"
    by blast
  then show ?thesis using e h by simp
qed

lemma send_key_down_nonempty:
  "k \<noteq> [] \<Longrightarrow>
   send_key_down E k s =
     (if key_raises E (trace s) (KeyDown (pydi_name k))
      then (Raised, emit (Key (KeyDown (pydi_name k)) Raised) s)
      else (Returned, emit (Key (KeyDown (pydi_name k)) Returned) s))"
  using to_pydi_key_nonempty [of k]
  by (auto simp: send_key_down_def pydirectinput_def pydi_name_def)

lemma count_simps [simp]:
  "key_downs [] = 0" "key_ups [] = 0" "key_downs_returned [] = 0"
  "key_downs [Key (KeyDown k) r] = 1" "key_ups [Key (KeyDown k) r] = 0"
  "key_downs_returned [Key (KeyDown k) Returned] = 1"
  "key_downs_returned [Key (KeyDown k) Raised] = 0"
  "key_downs [Key (KeyUp k) r] = 0" "key_ups [Key (KeyUp k) r] = 1"
  "key_downs_returned [Key (KeyUp k) r] = 0"
  by (simp_all add: key_downs_def key_ups_def key_downs_returned_def is_key_down_def
      is_key_up_def; cases r; simp add: is_key_down_def)+

lemma count_append:
  "key_downs (xs @ ys) = key_downs xs + key_downs ys"
  "key_ups (xs @ ys) = key_ups xs + key_ups ys"
  "key_downs_returned (xs @ ys) = key_downs_returned xs + key_downs_returned ys"
  by (simp_all add: key_downs_def key_ups_def key_downs_returned_def key_calls_append
      returned_key_calls_append)

lemma holds_le: "holds b s \<le> 1"
  by (simp add: holds_def split: option.splits)

lemma hold_if_needed_step:
  assumes "k \<noteq> []"
  shows "\<exists>new. trace (snd (hold_if_needed E b k s)) = trace s @ new
     \<and> key_downs_returned new + holds b s = key_ups new + holds b (snd (hold_if_needed E b k s))
     \<and> ((\<forall>t k'. \<not> key_raises E t (KeyDown k')) \<longrightarrow> key_downs new = key_downs_returned new)"
proof (cases "map_of (HELD_BY_BUTTON s) b")
  case (Some k0)
  then show ?thesis by (intro exI [of _ "[]"]) (simp add: hold_if_needed_def)
next
  case None
  show ?thesis
  proof (cases "key_raises E (trace s) (KeyDown (pydi_name k))")
    case True
    with None assms show ?thesis
      by (intro exI [of _ "[Key (KeyDown (pydi_name k)) Raised]"])
         (auto simp: hold_if_needed_def send_key_down_nonempty holds_def)
  next
    case False
    with None assms show ?thesis
      by (intro exI [of _ "[Key (KeyDown (pydi_name k)) Returned]"])
         (simp add: hold_if_needed_def send_key_down_nonempty holds_def update_conv')
  qed
qed

lemma release_if_held_step:
  "\<exists>new. trace (snd (release_if_held E b s)) = trace s @ new
     \<and> key_downs_returned new + holds b s = key_ups new + holds b (snd (release_if_held E b s))
     \<and> key_downs new = key_downs_returned new"
proof -
  from release_if_held_shape [of E b s] obtain r new where
    e: "release_if_held E b s =
      (r, s\<lparr>HELD_BY_BUTTON := AList.delete b (HELD_BY_BUTTON s), trace := trace s @ new\<rparr>)"
    and n: "new = (case map_of (HELD_BY_BUTTON s) b of
               None \<Rightarrow> []
             | Some k \<Rightarrow> (if k = [] then [] else [Key (KeyUp (pydi_name k)) r]))"
    by blast
  show ?thesis
    by (intro exI [of _ new])
       (simp add: e n holds_def map_of_delete_same split: option.splits)
qed

lemma dispatch_hold_step:
  assumes "button_behavior c b = Some ''hold''" and "button_to_key c b = Some k" and "k \<noteq> []"
  shows "\<exists>new. trace (snd (dispatch E c b ev s)) = trace s @ new
     \<and> key_downs_returned new + holds b s = key_ups new + holds b (snd (dispatch E c b ev s))
     \<and> ((\<forall>t k'. \<not> key_raises E t (KeyDown k')) \<longrightarrow> key_downs new = key_downs_returned new)"
proof (cases ev)
  case Press
  then have "dispatch E c b ev s = hold_if_needed E b k s"
    using assms by (simp add: dispatch_def)
  then show ?thesis using hold_if_needed_step [OF assms(3), of E b s] by simp
next
  case Release
  then have "dispatch E c b ev s = release_if_held E b s"
    using assms by (simp add: dispatch_def)
  then show ?thesis using release_if_held_step [of E b s] by auto
qed

lemma dispatch_all_hold:
  assumes "button_behavior c b = Some ''hold''" and "button_to_key c b = Some k" and "k \<noteq> []"
  shows "\<exists>new. trace (dispatch_all E c b evs s) = trace s @ new
     \<and> key_downs_returned new + holds b s = key_ups new + holds b (dispatch_all E c b evs s)
     \<and> ((\<forall>t k'. \<not> key_raises E t (KeyDown k')) \<longrightarrow> key_downs new = key_downs_returned new)"
proof (induction evs arbitrary: s)
  case Nil
  show ?case by (intro exI [of _ "[]"]) simp
next
  case (Cons ev evs)
  let ?s1 = "snd (dispatch E c b ev s)"
  from dispatch_hold_step [OF assms, of E ev s] obtain new1 where
    t1: "trace ?s1 = trace s @ new1"
    and b1: "key_downs_returned new1 + holds b s = key_ups new1 + holds b ?s1"
    and q1: "(\<forall>t k'. \<not> key_raises E t (KeyDown k')) \<longrightarrow> key_downs new1 = key_downs_returned new1"
    by blast
  from Cons.IH [of ?s1] obtain new2 where
    t2: "trace (dispatch_all E c b evs ?s1) = trace ?s1 @ new2"
    and b2: "key_downs_returned new2 + holds b ?s1
              = key_ups new2 + holds b (dispatch_all E c b evs ?s1)"
    and q2: "(\<forall>t k'. \<not> key_raises E t (KeyDown k')) \<longrightarrow> key_downs new2 = key_downs_returned new2"
    by blast
  show ?case
    using t1 t2 b1 b2 q1 q2
    by (intro exI [of _ "new1 @ new2"]) (simp add: count_append)
qed

subsection \<open>The life of a held key\<close>

text \<open>
  Claim C1, as the code has it. Take a button whose behaviour is \<^verbatim>\<open>"hold"\<close> and
  whose key is set, any starting state, any outside, and any sequence of press and
  release events given to the dispatching half of the handler. After every prefix of
  the sequence, the key-down calls that returned exceed the key-up calls issued by at
  most 1; where no key-down injection raises, so do the key-down calls issued. And
  after \<open>release_all_held_keys\<close> the dictionary is empty.
\<close>

theorem C1_hold_lifecycle:
  assumes "button_behavior c b = Some ''hold''" and "button_to_key c b = Some k" and "k \<noteq> []"
  shows "key_downs_returned (new_events s (dispatch_all E c b (take n evs) s))
           \<le> key_ups (new_events s (dispatch_all E c b (take n evs) s)) + 1
     \<and> ((\<forall>t k'. \<not> key_raises E t (KeyDown k')) \<longrightarrow>
          key_downs (new_events s (dispatch_all E c b (take n evs) s))
            \<le> key_ups (new_events s (dispatch_all E c b (take n evs) s)) + 1)
     \<and> HELD_BY_BUTTON (snd (release_all_held_keys E (dispatch_all E c b evs s))) = []"
proof -
  let ?s' = "dispatch_all E c b (take n evs) s"
  from dispatch_all_hold [OF assms, of E "take n evs" s] obtain new where
    t: "trace ?s' = trace s @ new"
    and bal: "key_downs_returned new + holds b s = key_ups new + holds b ?s'"
    and q: "(\<forall>t k'. \<not> key_raises E t (KeyDown k')) \<longrightarrow> key_downs new = key_downs_returned new"
    by blast
  have n: "new_events s ?s' = new" by (rule new_events_append [OF t])
  have le: "key_downs_returned new \<le> key_ups new + 1"
    using bal holds_le [of b ?s'] by linarith
  have e: "HELD_BY_BUTTON (snd (release_all_held_keys E (dispatch_all E c b evs s))) = []"
    using release_all_shape [of E "dispatch_all E c b evs s"] by auto
  show ?thesis unfolding n using le q e by simp
qed

text \<open>Press, press, release of ``Right Steer'' in the source's setting.\<close>

theorem C1_hold_lifecycle_witness:
  "key_downs_returned
      (new_events initial_world
        (dispatch_all quiet_env source_config ''Right Steer'' (take 3 [Press, Press, Release, Press])
          initial_world)) = 1
   \<and> key_downs
      (new_events initial_world
        (dispatch_all quiet_env source_config ''Right Steer'' (take 3 [Press, Press, Release, Press])
          initial_world)) \<le>
     key_ups
      (new_events initial_world
        (dispatch_all quiet_env source_config ''Right Steer'' (take 3 [Press, Press, Release, Press])
          initial_world)) + 1
   \<and> HELD_BY_BUTTON
       (dispatch_all quiet_env source_config ''Right Steer'' [Press, Press, Release, Press]
          initial_world) = [(''Right Steer'', ''ArrowRight'')]
   \<and> HELD_BY_BUTTON
       (snd (release_all_held_keys quiet_env
         (dispatch_all quiet_env source_config ''Right Steer'' [Press, Press, Release, Press]
           initial_world))) = []"
proof -
  have a: "button_behavior source_config ''Right Steer'' = Some ''hold''"
    by (simp add: source_config_def BUTTON_BEHAVIOR_def)
  have b: "button_to_key source_config ''Right Steer'' = Some ''ArrowRight''"
    by (simp add: source_config_def BUTTON_TO_KEY_def)
  have c: "''ArrowRight'' \<noteq> []" by simp
  have q: "\<forall>t k'. \<not> key_raises quiet_env t (KeyDown k')" by (simp add: quiet_env_def)
  have t: "trace (dispatch_all quiet_env source_config ''Right Steer'' [Press, Press, Release]
             initial_world)
           = [Key (KeyDown ''right'') Returned, Key (KeyUp ''right'') Returned]"
    by (simp add: dispatch_def a b hold_if_needed_def release_if_held_def send_key_down_def
        send_key_up_def to_pydi_key_def KEY_NAME_MAP_def pydirectinput_def quiet_env_def
        initial_world_def emit_def)
  have h: "HELD_BY_BUTTON
       (dispatch_all quiet_env source_config ''Right Steer'' [Press, Press, Release, Press]
          initial_world) = [(''Right Steer'', ''ArrowRight'')]"
    by (simp add: dispatch_def a b hold_if_needed_def release_if_held_def send_key_down_def
        send_key_up_def to_pydi_key_def KEY_NAME_MAP_def pydirectinput_def quiet_env_def
        initial_world_def emit_def)
  have tk: "take 3 [Press, Press, Release, Press] = [Press, Press, Release]" by simp
  have i: "trace initial_world = []" by (simp add: initial_world_def)
  have d: "key_downs_returned
      (new_events initial_world
        (dispatch_all quiet_env source_config ''Right Steer'' (take 3 [Press, Press, Release, Press])
          initial_world)) = 1"
    unfolding tk new_events_def t i
    by (simp add: key_downs_returned_def is_key_down_def)
  note th = C1_hold_lifecycle [OF a b c, of initial_world quiet_env 3
      "[Press, Press, Release, Press]"]
  from th q have le: "key_downs
      (new_events initial_world
        (dispatch_all quiet_env source_config ''Right Steer'' (take 3 [Press, Press, Release, Press])
          initial_world)) \<le>
     key_ups
      (new_events initial_world
        (dispatch_all quiet_env source_config ''Right Steer'' (take 3 [Press, Press, Release, Press])
          initial_world)) + 1"
    by blast
  from th have e: "HELD_BY_BUTTON
       (snd (release_all_held_keys quiet_env
         (dispatch_all quiet_env source_config ''Right Steer'' [Press, Press, Release, Press]
           initial_world))) = []"
    by blast
  show ?thesis using d le h e by blast
qed

text \<open>
  The count of key-down calls issued is not bounded so when the injection raises:
  \<open>hold_if_needed\<close> records the entry only after \<open>send_key_down\<close> has returned, so
  a press whose key-down raised leaves no entry and the next press issues key-down
  again. Two presses of ``Right Steer'' while every injection raises: two key-down calls
  and no key-up.
\<close>

theorem C1_counterexample:
  "\<not> key_downs
        (new_events initial_world
          (dispatch_all raising_env source_config ''Right Steer'' [Press, Press] initial_world))
      \<le> key_ups
        (new_events initial_world
          (dispatch_all raising_env source_config ''Right Steer'' [Press, Press] initial_world)) + 1"
proof -
  have t: "trace (dispatch_all raising_env source_config ''Right Steer'' [Press, Press]
             initial_world)
           = [Key (KeyDown ''right'') Raised, Key (KeyDown ''right'') Raised]"
    by (simp add: dispatch_def source_config_def BUTTON_BEHAVIOR_def BUTTON_TO_KEY_def
        hold_if_needed_def send_key_down_def
        to_pydi_key_def KEY_NAME_MAP_def pydirectinput_def raising_env_def
        initial_world_def emit_def)
  have i: "trace initial_world = []" by (simp add: initial_world_def)
  show ?thesis
    unfolding new_events_def t i
    by (simp add: key_downs_def key_ups_def is_key_down_def is_key_up_def)
qed

lemma send_key_tap_nonempty:
  "k \<noteq> [] \<Longrightarrow>
   send_key_tap E k s =
     (completion_of E (trace s) (PressKey (pydi_name k)),
      emit (Key (PressKey (pydi_name k)) (completion_of E (trace s) (PressKey (pydi_name k)))) s)"
  using to_pydi_key_nonempty [of k]
  by (auto simp: send_key_tap_def pydirectinput_def pydi_name_def completion_of_def)

lemma send_key_up_nonempty:
  "k \<noteq> [] \<Longrightarrow>
   send_key_up E k s =
     (completion_of E (trace s) (KeyUp (pydi_name k)),
      emit (Key (KeyUp (pydi_name k)) (completion_of E (trace s) (KeyUp (pydi_name k)))) s)"
  using to_pydi_key_nonempty [of k]
  by (auto simp: send_key_up_def pydirectinput_def pydi_name_def completion_of_def)

lemma parse_press_1:
  "parse_short_frame [0x00, 0x01, 0x81] =
     Some \<lparr>prefix = ''0001'', name = ''Right Up'', type = Press, seq = 1, rrHex = ''81''\<rparr>"
  by (simp add: parse_short_frame_def hex2_def hex_digit_def PREFIX_TO_BUTTON_def)

lemma parse_release_1:
  "parse_short_frame [0x00, 0x01, 0x01] =
     Some \<lparr>prefix = ''0001'', name = ''Right Up'', type = Release, seq = 1, rrHex = ''01''\<rparr>"
  by (simp add: parse_short_frame_def hex2_def hex_digit_def PREFIX_TO_BUTTON_def)

subsection \<open>Frames that are not short frames\<close>

text \<open>
  Claim C8, as the code has it. A frame that \<open>parse_short_frame\<close> rejects is logged,
  as ``Other frame'' with its bytes in hexadecimal, exactly when the Debug checkbox is
  ticked at that time; with the checkbox clear the handler does nothing at all. Either
  way the frame goes no further: no key call is issued, and the de-duplication table
  and the held keys stay as they were.
\<close>

theorem C8_other_frames:
  assumes "parse_short_frame payload = None"
  shows "notification_handler E c debug payload s =
           (Returned,
            if debug then msgq_put (Log (LogOtherFrame (hex_upper payload))) s else s)
     \<and> new_events s (snd (notification_handler E c debug payload s)) =
           (if debug then [Put (Log (LogOtherFrame (hex_upper payload)))] else [])
     \<and> HELD_BY_BUTTON (snd (notification_handler E c debug payload s)) = HELD_BY_BUTTON s
     \<and> last_seq (snd (notification_handler E c debug payload s)) = last_seq s
     \<and> key_calls (new_events s (snd (notification_handler E c debug payload s))) = []"
  using assms
  by (simp add: notification_handler_def msgq_put_def new_events_def)

text \<open>A frame of four bytes, with the checkbox ticked and clear.\<close>

theorem C8_other_frames_witness:
  "parse_short_frame [0x01, 0x02, 0x03, 0x04] = None
   \<and> new_events initial_world
        (snd (notification_handler quiet_env source_config True [0x01, 0x02, 0x03, 0x04]
               initial_world))
      = [Put (Log (LogOtherFrame ''01020304''))]
   \<and> new_events initial_world
        (snd (notification_handler quiet_env source_config False [0x01, 0x02, 0x03, 0x04]
               initial_world))
      = []"
proof -
  have p: "parse_short_frame [0x01, 0x02, 0x03, 0x04] = None"
    by (simp add: parse_short_frame_def)
  have h: "hex_upper [0x01, 0x02, 0x03, 0x04] = ''01020304''"
    by (simp add: hex_upper_def hex2_def hex_digit_def)
  from C8_other_frames [OF p, of quiet_env source_config True initial_world]
  have a: "new_events initial_world
        (snd (notification_handler quiet_env source_config True [0x01, 0x02, 0x03, 0x04]
               initial_world))
      = (if True then [Put (Log (LogOtherFrame (hex_upper [0x01, 0x02, 0x03, 0x04])))] else [])"
    by blast
  from C8_other_frames [OF p, of quiet_env source_config False initial_world]
  have b: "new_events initial_world
        (snd (notification_handler quiet_env source_config False [0x01, 0x02, 0x03, 0x04]
               initial_world))
      = (if False then [Put (Log (LogOtherFrame (hex_upper [0x01, 0x02, 0x03, 0x04])))] else [])"
    by blast
  show ?thesis
    unfolding a b h using p by simp
qed

text \<open>
  With the checkbox clear (its initial value) a frame of four bytes leaves no trace:
  no log message is put on the queue.
\<close>

theorem C8_counterexample:
  "parse_short_frame [0x01, 0x02, 0x03, 0x04] = None
   \<and> trace (snd (notification_handler quiet_env source_config False [0x01, 0x02, 0x03, 0x04]
                  initial_world)) = []"
  by (simp add: parse_short_frame_def notification_handler_def initial_world_def)

lemmas handler_defs =
  notification_handler_def parse_short_frame_def hex2_def hex_digit_def PREFIX_TO_BUTTON_def
  already_handled_def dispatch_def source_config_def BUTTON_TO_KEY_def BUTTON_BEHAVIOR_def
  hold_if_needed_def release_if_held_def send_key_tap_def send_key_down_def send_key_up_def
  to_pydi_key_def KEY_NAME_MAP_def pydirectinput_def quiet_env_def AList.delete_eq

lemma handler_press_1:
  assumes "last_seq s (''0001'', Press) \<noteq> Some 1"
  shows "notification_handler E c debug [0x00, 0x01, 0x81] s =
     dispatch E c ''Right Up'' Press
       (msgq_put (Log (LogButton ''Right Up'' Press 1 ''0001'' ''81''))
          (s\<lparr>last_seq := (last_seq s)((''0001'', Press) \<mapsto> 1)\<rparr>))"
  using assms by (simp add: notification_handler_def parse_press_1 already_handled_def)

lemma handler_press_1_again:
  assumes "last_seq s (''0001'', Press) = Some 1"
  shows "notification_handler E c debug [0x00, 0x01, 0x81] s = (Returned, s)"
  using assms by (simp add: notification_handler_def parse_press_1 already_handled_def)

lemma handler_release_1:
  assumes "last_seq s (''0001'', Release) \<noteq> Some 1"
  shows "notification_handler E c debug [0x00, 0x01, 0x01] s =
     dispatch E c ''Right Up'' Release
       (msgq_put (Log (LogButton ''Right Up'' Release 1 ''0001'' ''01''))
          (s\<lparr>last_seq := (last_seq s)((''0001'', Release) \<mapsto> 1)\<rparr>))"
  using assms by (simp add: notification_handler_def parse_release_1 already_handled_def)

lemma msgq_put_simps [simp]:
  "trace (msgq_put m s) = trace s @ [Put m]"
  "HELD_BY_BUTTON (msgq_put m s) = HELD_BY_BUTTON s"
  "last_seq (msgq_put m s) = last_seq s"
  "stop_event (msgq_put m s) = stop_event s"
  "notify_on (msgq_put m s) = notify_on s"
  by (simp_all add: msgq_put_def)

lemma handler_release_1_again:
  assumes "last_seq s (''0001'', Release) = Some 1"
  shows "notification_handler E c debug [0x00, 0x01, 0x01] s = (Returned, s)"
  using assms by (simp add: notification_handler_def parse_release_1 already_handled_def)

lemma pydirectinput_last_seq: "last_seq (snd (pydirectinput E x s)) = last_seq s"
  by (simp add: pydirectinput_def)

lemma send_key_last_seq:
  "last_seq (snd (send_key_tap E k s)) = last_seq s"
  "last_seq (snd (send_key_down E k s)) = last_seq s"
  "last_seq (snd (send_key_up E k s)) = last_seq s"
  by (simp_all add: send_key_tap_def send_key_down_def send_key_up_def pydirectinput_last_seq
      split: option.splits)

lemma hold_if_needed_last_seq: "last_seq (snd (hold_if_needed E b k s)) = last_seq s"
proof -
  obtain r s' where e: "send_key_down E k s = (r, s')" by (cases "send_key_down E k s")
  have "last_seq s' = last_seq s" using send_key_last_seq(2) [of E k s] by (simp add: e)
  then show ?thesis
    by (cases r) (simp_all add: hold_if_needed_def e)
qed

lemma release_if_held_last_seq: "last_seq (snd (release_if_held E b s)) = last_seq s"
  by (simp add: release_if_held_def Let_def send_key_last_seq split: option.splits)

lemma dispatch_last_seq: "last_seq (snd (dispatch E c b ev s)) = last_seq s"
  by (simp add: dispatch_def Let_def send_key_last_seq hold_if_needed_last_seq
      release_if_held_last_seq split: option.splits)

lemma handler_press_1_recorded:
  "last_seq (snd (notification_handler E c debug [0x00, 0x01, 0x81] s)) (''0001'', Press) = Some 1"
proof (cases "last_seq s (''0001'', Press) = Some 1")
  case True
  then show ?thesis by (simp add: handler_press_1_again)
next
  case False
  show ?thesis by (simp add: handler_press_1 [OF False] dispatch_last_seq)
qed

lemma press_1_twice:
  "handle_frames E c [([0x00, 0x01, 0x81], d1), ([0x00, 0x01, 0x81], d2)] s
     = handle_frames E c [([0x00, 0x01, 0x81], d1)] s"
  by (simp add: handler_press_1_again [OF handler_press_1_recorded])

lemma tap_scenario:
  assumes p: "last_seq s (''0001'', Press) \<noteq> Some 1"
    and k: "button_to_key c ''Right Up'' = Some k" "k \<noteq> []"
    and b: "button_behavior c ''Right Up'' = None \<or> button_behavior c ''Right Up'' = Some ''tap''"
  shows "trace (handle_frames E c
            [([0x00, 0x01, 0x81], d1), ([0x00, 0x01, 0x81], d2), ([0x00, 0x01, 0x01], d3)] s)
         = trace s @
           [Put (Log (LogButton ''Right Up'' Press 1 ''0001'' ''81'')),
            Key (PressKey (pydi_name k))
              (completion_of E (trace s @ [Put (Log (LogButton ''Right Up'' Press 1 ''0001'' ''81''))])
                 (PressKey (pydi_name k)))]
           @ (if last_seq s (''0001'', Release) = Some 1 then []
              else [Put (Log (LogButton ''Right Up'' Release 1 ''0001'' ''01''))])"
proof -
  let ?s1 = "snd (notification_handler E c d1 [0x00, 0x01, 0x81] s)"
  have d: "dispatch E c ''Right Up'' Press s' = send_key_tap E k s'" for s'
    using k b by (auto simp: dispatch_def)
  have rl: "dispatch E c ''Right Up'' Release s' = (Returned, s')" for s'
    using b by (auto simp: dispatch_def)
  have s1: "?s1 = emit (Key (PressKey (pydi_name k))
              (completion_of E (trace s @ [Put (Log (LogButton ''Right Up'' Press 1 ''0001'' ''81''))])
                 (PressKey (pydi_name k))))
            (msgq_put (Log (LogButton ''Right Up'' Press 1 ''0001'' ''81''))
              (s\<lparr>last_seq := (last_seq s)((''0001'', Press) \<mapsto> 1)\<rparr>))"
    by (simp add: handler_press_1 [OF p] d send_key_tap_nonempty [OF k(2)])
  have l1: "last_seq ?s1 (''0001'', Press) = Some 1" by (simp add: s1)
  have l2: "last_seq ?s1 (''0001'', Release) = last_seq s (''0001'', Release)"
    by (simp add: s1)
  have dup: "notification_handler E c d2 [0x00, 0x01, 0x81] ?s1 = (Returned, ?s1)"
    by (rule handler_press_1_again [OF l1])
  have "trace (snd (notification_handler E c d3 [0x00, 0x01, 0x01] ?s1))
        = trace ?s1 @ (if last_seq s (''0001'', Release) = Some 1 then []
              else [Put (Log (LogButton ''Right Up'' Release 1 ''0001'' ''01''))])"
  proof (cases "last_seq s (''0001'', Release) = Some 1")
    case True
    have "last_seq ?s1 (''0001'', Release) = Some 1" unfolding l2 by (rule True)
    from handler_release_1_again [OF this] True show ?thesis by simp
  next
    case False
    have "last_seq ?s1 (''0001'', Release) \<noteq> Some 1" unfolding l2 by (rule False)
    from handler_release_1 [OF this] False show ?thesis by (simp add: rl)
  qed
  then show ?thesis
    by (simp add: dup) (simp add: s1)
qed

lemma hold_scenario:
  assumes p: "last_seq s (''0001'', Press) \<noteq> Some 1"
    and r: "last_seq s (''0001'', Release) \<noteq> Some 1"
    and k: "button_to_key c ''Right Up'' = Some k" "k \<noteq> []"
    and b: "button_behavior c ''Right Up'' = Some ''hold''"
    and h: "map_of (HELD_BY_BUTTON s) ''Right Up'' = None"
    and ok: "\<not> key_raises E (trace s @ [Put (Log (LogButton ''Right Up'' Press 1 ''0001'' ''81''))])
                 (KeyDown (pydi_name k))"
  shows "trace (handle_frames E c
            [([0x00, 0x01, 0x81], d1), ([0x00, 0x01, 0x81], d2), ([0x00, 0x01, 0x01], d3)] s)
         = trace s @
           [Put (Log (LogButton ''Right Up'' Press 1 ''0001'' ''81'')),
            Key (KeyDown (pydi_name k)) Returned,
            Put (Log (LogButton ''Right Up'' Release 1 ''0001'' ''01'')),
            Key (KeyUp (pydi_name k))
              (completion_of E
                 (trace s @
                   [Put (Log (LogButton ''Right Up'' Press 1 ''0001'' ''81'')),
                    Key (KeyDown (pydi_name k)) Returned,
                    Put (Log (LogButton ''Right Up'' Release 1 ''0001'' ''01''))])
                 (KeyUp (pydi_name k)))]"
proof -
  let ?s1 = "snd (notification_handler E c d1 [0x00, 0x01, 0x81] s)"
  have d: "dispatch E c ''Right Up'' Press s' = hold_if_needed E ''Right Up'' k s'" for s'
    using k b by (auto simp: dispatch_def)
  have rl: "dispatch E c ''Right Up'' Release s' = release_if_held E ''Right Up'' s'" for s'
    using b by (auto simp: dispatch_def)
  have s1: "?s1 = (emit (Key (KeyDown (pydi_name k)) Returned)
            (msgq_put (Log (LogButton ''Right Up'' Press 1 ''0001'' ''81''))
              (s\<lparr>last_seq := (last_seq s)((''0001'', Press) \<mapsto> 1)\<rparr>)))
             \<lparr>HELD_BY_BUTTON := AList.update ''Right Up'' k (HELD_BY_BUTTON s)\<rparr>"
    using h ok
    by (simp add: handler_press_1 [OF p] d hold_if_needed_def send_key_down_nonempty [OF k(2)])
  have l1: "last_seq ?s1 (''0001'', Press) = Some 1" by (simp add: s1)
  have l2: "last_seq ?s1 (''0001'', Release) \<noteq> Some 1" using r by (simp add: s1)
  have dup: "notification_handler E c d2 [0x00, 0x01, 0x81] ?s1 = (Returned, ?s1)"
    by (rule handler_press_1_again [OF l1])
  have m: "map_of (HELD_BY_BUTTON ?s1) ''Right Up'' = Some k"
    by (simp add: s1 update_conv')
  have "trace (snd (notification_handler E c d3 [0x00, 0x01, 0x01] ?s1))
        = trace ?s1 @ [Put (Log (LogButton ''Right Up'' Release 1 ''0001'' ''01'')),
            Key (KeyUp (pydi_name k))
              (completion_of E
                 (trace ?s1 @ [Put (Log (LogButton ''Right Up'' Release 1 ''0001'' ''01''))])
                 (KeyUp (pydi_name k)))]"
    using m k(2)
    by (simp add: handler_release_1 [OF l2] rl release_if_held_def send_key_up_nonempty)
  then show ?thesis
    by (simp add: dup) (simp add: s1)
qed

subsection \<open>Press, the same press again, release\<close>

text \<open>
  Claim C9, as the code has it. The frames \<open>00 01 81\<close>, \<open>00 01 81\<close> and \<open>00 01 01\<close> arrive
  in this order.
  \<^item> The second frame changes nothing at all, in any state and any setting: no key, no
    log line.
  \<^item> If the press last recorded for prefix 0001 is not number 1 (as on a fresh start) and
    ``Right Up'' has a key and taps (the source's setting), the handler adds to the trace
    the log line of the press and one tap of the key, then the log line of the release
    unless the release last recorded is number 1, and nothing else, whatever the outside
    does.
  \<^item> If neither the press nor the release last recorded for prefix 0001 is number 1,
    ``Right Up'' has a key and holds, is not held yet, and the key-down does not raise,
    the handler adds the log line of the press, one key-down, the log line of the release
    and one key-up, and nothing else.
\<close>

theorem C9_press_duplicate_release:
  "handle_frames E c [([0x00, 0x01, 0x81], d1), ([0x00, 0x01, 0x81], d2)] s
     = handle_frames E c [([0x00, 0x01, 0x81], d1)] s
   \<and> (last_seq s (''0001'', Press) \<noteq> Some 1
       \<and> button_to_key c ''Right Up'' = Some k \<and> k \<noteq> []
       \<and> (button_behavior c ''Right Up'' = None \<or> button_behavior c ''Right Up'' = Some ''tap'')
       \<longrightarrow>
        new_events s (handle_frames E c
           [([0x00, 0x01, 0x81], d1), ([0x00, 0x01, 0x81], d2), ([0x00, 0x01, 0x01], d3)] s)
        = [Put (Log (LogButton ''Right Up'' Press 1 ''0001'' ''81'')),
           Key (PressKey (pydi_name k))
             (completion_of E
                (trace s @ [Put (Log (LogButton ''Right Up'' Press 1 ''0001'' ''81''))])
                (PressKey (pydi_name k)))]
          @ (if last_seq s (''0001'', Release) = Some 1 then []
             else [Put (Log (LogButton ''Right Up'' Release 1 ''0001'' ''01''))]))
   \<and> (last_seq s (''0001'', Press) \<noteq> Some 1
       \<and> last_seq s (''0001'', Release) \<noteq> Some 1
       \<and> button_to_key c ''Right Up'' = Some k \<and> k \<noteq> []
       \<and> button_behavior c ''Right Up'' = Some ''hold''
       \<and> map_of (HELD_BY_BUTTON s) ''Right Up'' = None
       \<and> \<not> key_raises E
              (trace s @ [Put (Log (LogButton ''Right Up'' Press 1 ''0001'' ''81''))])
              (KeyDown (pydi_name k))
       \<longrightarrow>
        new_events s (handle_frames E c
           [([0x00, 0x01, 0x81], d1), ([0x00, 0x01, 0x81], d2), ([0x00, 0x01, 0x01], d3)] s)
        = [Put (Log (LogButton ''Right Up'' Press 1 ''0001'' ''81'')),
           Key (KeyDown (pydi_name k)) Returned,
           Put (Log (LogButton ''Right Up'' Release 1 ''0001'' ''01'')),
           Key (KeyUp (pydi_name k))
             (completion_of E
                (trace s @
                  [Put (Log (LogButton ''Right Up'' Press 1 ''0001'' ''81'')),
                   Key (KeyDown (pydi_name k)) Returned,
                   Put (Log (LogButton ''Right Up'' Release 1 ''0001'' ''01''))])
                (KeyUp (pydi_name k)))])"
proof (intro conjI impI)
  show "handle_frames E c [([0x00, 0x01, 0x81], d1), ([0x00, 0x01, 0x81], d2)] s
     = handle_frames E c [([0x00, 0x01, 0x81], d1)] s"
    by (rule press_1_twice)
next
  assume a: "last_seq s (''0001'', Press) \<noteq> Some 1
       \<and> button_to_key c ''Right Up'' = Some k \<and> k \<noteq> []
       \<and> (button_behavior c ''Right Up'' = None \<or> button_behavior c ''Right Up'' = Some ''tap'')"
  then have p: "last_seq s (''0001'', Press) \<noteq> Some 1"
    and k: "button_to_key c ''Right Up'' = Some k" "k \<noteq> []"
    and b: "button_behavior c ''Right Up'' = None \<or> button_behavior c ''Right Up'' = Some ''tap''"
    by simp_all
  show "new_events s (handle_frames E c
           [([0x00, 0x01, 0x81], d1), ([0x00, 0x01, 0x81], d2), ([0x00, 0x01, 0x01], d3)] s)
        = [Put (Log (LogButton ''Right Up'' Press 1 ''0001'' ''81'')),
           Key (PressKey (pydi_name k))
             (completion_of E
                (trace s @ [Put (Log (LogButton ''Right Up'' Press 1 ''0001'' ''81''))])
                (PressKey (pydi_name k)))]
          @ (if last_seq s (''0001'', Release) = Some 1 then []
             else [Put (Log (LogButton ''Right Up'' Release 1 ''0001'' ''01''))])"
    by (rule new_events_append) (rule tap_scenario [OF p k b])
next
  assume a: "last_seq s (''0001'', Press) \<noteq> Some 1
       \<and> last_seq s (''0001'', Release) \<noteq> Some 1
       \<and> button_to_key c ''Right Up'' = Some k \<and> k \<noteq> []
       \<and> button_behavior c ''Right Up'' = Some ''hold''
       \<and> map_of (HELD_BY_BUTTON s) ''Right Up'' = None
       \<and> \<not> key_raises E
              (trace s @ [Put (Log (LogButton ''Right Up'' Press 1 ''0001'' ''81''))])
              (KeyDown (pydi_name k))"
  then have p: "last_seq s (''0001'', Press) \<noteq> Some 1"
    and r: "last_seq s (''0001'', Release) \<noteq> Some 1"
    and k: "button_to_key c ''Right Up'' = Some k" "k \<noteq> []"
    and b: "button_behavior c ''Right Up'' = Some ''hold''"
    and h: "map_of (HELD_BY_BUTTON s) ''Right Up'' = None"
    and ok: "\<not> key_raises E
              (trace s @ [Put (Log (LogButton ''Right Up'' Press 1 ''0001'' ''81''))])
              (KeyDown (pydi_name k))"
    by simp_all
  show "new_events s (handle_frames E c
           [([0x00, 0x01, 0x81], d1), ([0x00, 0x01, 0x81], d2), ([0x00, 0x01, 0x01], d3)] s)
        = [Put (Log (LogButton ''Right Up'' Press 1 ''0001'' ''81'')),
           Key (KeyDown (pydi_name k)) Returned,
           Put (Log (LogButton ''Right Up'' Release 1 ''0001'' ''01'')),
           Key (KeyUp (pydi_name k))
             (completion_of E
                (trace s @
                  [Put (Log (LogButton ''Right Up'' Press 1 ''0001'' ''81'')),
                   Key (KeyDown (pydi_name k)) Returned,
                   Put (Log (LogButton ''Right Up'' Release 1 ''0001'' ''01''))])
                (KeyUp (pydi_name k)))]"
    by (rule new_events_append) (rule hold_scenario [OF p r k b h ok])
qed

text \<open>
  From the fresh start: in the source's setting, where ``Right Up'' taps the key 7 and
  every injection raises; and with ``Right Up'' made a hold button, where none does.
\<close>

theorem C9_press_duplicate_release_witness:
  "last_seq initial_world (''0001'', Press) \<noteq> Some 1
   \<and> last_seq initial_world (''0001'', Release) \<noteq> Some 1
   \<and> button_to_key source_config ''Right Up'' = Some ''7''
   \<and> button_behavior source_config ''Right Up'' = None
   \<and> button_to_key right_up_hold_config ''Right Up'' = Some ''7''
   \<and> button_behavior right_up_hold_config ''Right Up'' = Some ''hold''
   \<and> map_of (HELD_BY_BUTTON initial_world) ''Right Up'' = None
   \<and> new_events initial_world (handle_frames raising_env source_config
      [([0x00, 0x01, 0x81], False), ([0x00, 0x01, 0x81], False), ([0x00, 0x01, 0x01], False)]
      initial_world)
    = [Put (Log (LogButton ''Right Up'' Press 1 ''0001'' ''81'')),
       Key (PressKey ''7'') Raised,
       Put (Log (LogButton ''Right Up'' Release 1 ''0001'' ''01''))]
   \<and> new_events initial_world (handle_frames quiet_env right_up_hold_config
      [([0x00, 0x01, 0x81], False), ([0x00, 0x01, 0x81], False), ([0x00, 0x01, 0x01], False)]
      initial_world)
    = [Put (Log (LogButton ''Right Up'' Press 1 ''0001'' ''81'')),
       Key (KeyDown ''7'') Returned,
       Put (Log (LogButton ''Right Up'' Release 1 ''0001'' ''01'')),
       Key (KeyUp ''7'') Returned]"
proof -
  have p: "last_seq initial_world (''0001'', Press) \<noteq> Some 1"
    and r: "last_seq initial_world (''0001'', Release) \<noteq> Some 1"
    and h: "map_of (HELD_BY_BUTTON initial_world) ''Right Up'' = None"
    by (simp_all add: initial_world_def)
  have k: "button_to_key source_config ''Right Up'' = Some ''7''"
    and k': "button_to_key right_up_hold_config ''Right Up'' = Some ''7''"
    and b: "button_behavior source_config ''Right Up'' = None"
    and b': "button_behavior right_up_hold_config ''Right Up'' = Some ''hold''"
    by (simp_all add: right_up_hold_config_def source_config_def BUTTON_TO_KEY_def
        BUTTON_BEHAVIOR_def)
  have n: "''7'' \<noteq> []" by simp
  have y: "pydi_name ''7'' = ''7''"
    by (simp add: pydi_name_def to_pydi_key_def KEY_NAME_MAP_def)
  have q: "\<not> key_raises quiet_env t x" for t x by (simp add: quiet_env_def)
  have c: "completion_of raising_env t x = Raised" "completion_of quiet_env t x = Returned"
    for t x by (simp_all add: completion_of_def raising_env_def quiet_env_def)
  note tap = C9_press_duplicate_release
    [of raising_env source_config False False initial_world "''7''" False]
  note hold = C9_press_duplicate_release
    [of quiet_env right_up_hold_config False False initial_world "''7''" False]
  from tap p r k n b have "new_events initial_world (handle_frames raising_env source_config
      [([0x00, 0x01, 0x81], False), ([0x00, 0x01, 0x81], False), ([0x00, 0x01, 0x01], False)]
      initial_world)
    = [Put (Log (LogButton ''Right Up'' Press 1 ''0001'' ''81'')),
       Key (PressKey (pydi_name ''7''))
         (completion_of raising_env
            (trace initial_world @ [Put (Log (LogButton ''Right Up'' Press 1 ''0001'' ''81''))])
            (PressKey (pydi_name ''7'')))]
      @ (if last_seq initial_world (''0001'', Release) = Some 1 then []
         else [Put (Log (LogButton ''Right Up'' Release 1 ''0001'' ''01''))])"
    by blast
  then have 1: "new_events initial_world (handle_frames raising_env source_config
      [([0x00, 0x01, 0x81], False), ([0x00, 0x01, 0x81], False), ([0x00, 0x01, 0x01], False)]
      initial_world)
    = [Put (Log (LogButton ''Right Up'' Press 1 ''0001'' ''81'')),
       Key (PressKey ''7'') Raised,
       Put (Log (LogButton ''Right Up'' Release 1 ''0001'' ''01''))]"
    unfolding y c using r by simp
  from hold p r k' n b' h q have 2: "new_events initial_world (handle_frames quiet_env right_up_hold_config
      [([0x00, 0x01, 0x81], False), ([0x00, 0x01, 0x81], False), ([0x00, 0x01, 0x01], False)]
      initial_world)
    = [Put (Log (LogButton ''Right Up'' Press 1 ''0001'' ''81'')),
       Key (KeyDown ''7'') Returned,
       Put (Log (LogButton ''Right Up'' Release 1 ''0001'' ''01'')),
       Key (KeyUp ''7'') Returned]"
    unfolding y c by blast
  show ?thesis using p r k b k' b' h 1 2 by (intro conjI)
qed

text \<open>
  Claim C9 says that the three frames give exactly one tap, or one key-down followed by
  one key-up. Five runs of the three frames where they do not.
  \<^item> The source's setting, after a press and a release of ``Right Up'' numbered 1 have
    been handled: all three frames are dropped as duplicates, no key is tapped and
    nothing is logged.
  \<^item> ``Right Up'' a hold button, from the fresh start, every injection raising: one
    key-down is tried, and there is no key-up.
  \<^item> ``Right Up'' a hold button that is held already (a press numbered 5 whose release
    has not come): no key-down, only the key-up.
  \<^item> ``Right Up'' a hold button, after a release numbered 1 has been handled: the release
    is dropped as a duplicate; one key-down, no key-up.
  \<^item> ``Right Up'' disabled, from the fresh start: the two log lines, no key.
\<close>

theorem C9_counterexample:
  "new_events right_up_tapped_once (handle_frames quiet_env source_config
      [([0x00, 0x01, 0x81], False), ([0x00, 0x01, 0x81], False), ([0x00, 0x01, 0x01], False)]
      right_up_tapped_once) = []
   \<and> new_events initial_world (handle_frames raising_env right_up_hold_config
      [([0x00, 0x01, 0x81], False), ([0x00, 0x01, 0x81], False), ([0x00, 0x01, 0x01], False)]
      initial_world)
     = [Put (Log (LogButton ''Right Up'' Press 1 ''0001'' ''81'')),
        Key (KeyDown ''7'') Raised,
        Put (Log (LogButton ''Right Up'' Release 1 ''0001'' ''01''))]
   \<and> new_events right_up_held_5 (handle_frames quiet_env right_up_hold_config
      [([0x00, 0x01, 0x81], False), ([0x00, 0x01, 0x81], False), ([0x00, 0x01, 0x01], False)]
      right_up_held_5)
     = [Put (Log (LogButton ''Right Up'' Press 1 ''0001'' ''81'')),
        Put (Log (LogButton ''Right Up'' Release 1 ''0001'' ''01'')),
        Key (KeyUp ''7'') Returned]
   \<and> new_events right_up_released_1 (handle_frames quiet_env right_up_hold_config
      [([0x00, 0x01, 0x81], False), ([0x00, 0x01, 0x81], False), ([0x00, 0x01, 0x01], False)]
      right_up_released_1)
     = [Put (Log (LogButton ''Right Up'' Press 1 ''0001'' ''81'')),
        Key (KeyDown ''7'') Returned]
   \<and> new_events initial_world (handle_frames quiet_env right_up_disabled_config
      [([0x00, 0x01, 0x81], False), ([0x00, 0x01, 0x81], False), ([0x00, 0x01, 0x01], False)]
      initial_world)
     = [Put (Log (LogButton ''Right Up'' Press 1 ''0001'' ''81'')),
        Put (Log (LogButton ''Right Up'' Release 1 ''0001'' ''01''))]"
proof (intro conjI)
  show "new_events right_up_tapped_once (handle_frames quiet_env source_config
      [([0x00, 0x01, 0x81], False), ([0x00, 0x01, 0x81], False), ([0x00, 0x01, 0x01], False)]
      right_up_tapped_once) = []"
    by (simp add: right_up_tapped_once_def handler_defs new_events_def initial_world_def
        msgq_put_def emit_def)
  show "new_events initial_world (handle_frames raising_env right_up_hold_config
      [([0x00, 0x01, 0x81], False), ([0x00, 0x01, 0x81], False), ([0x00, 0x01, 0x01], False)]
      initial_world)
     = [Put (Log (LogButton ''Right Up'' Press 1 ''0001'' ''81'')),
        Key (KeyDown ''7'') Raised,
        Put (Log (LogButton ''Right Up'' Release 1 ''0001'' ''01''))]"
    by (simp add: right_up_hold_config_def raising_env_def handler_defs new_events_def
        initial_world_def msgq_put_def emit_def)
  show "new_events right_up_held_5 (handle_frames quiet_env right_up_hold_config
      [([0x00, 0x01, 0x81], False), ([0x00, 0x01, 0x81], False), ([0x00, 0x01, 0x01], False)]
      right_up_held_5)
     = [Put (Log (LogButton ''Right Up'' Press 1 ''0001'' ''81'')),
        Put (Log (LogButton ''Right Up'' Release 1 ''0001'' ''01'')),
        Key (KeyUp ''7'') Returned]"
    by (simp add: right_up_held_5_def right_up_hold_config_def handler_defs new_events_def
        initial_world_def msgq_put_def emit_def)
  show "new_events right_up_released_1 (handle_frames quiet_env right_up_hold_config
      [([0x00, 0x01, 0x81], False), ([0x00, 0x01, 0x81], False), ([0x00, 0x01, 0x01], False)]
      right_up_released_1)
     = [Put (Log (LogButton ''Right Up'' Press 1 ''0001'' ''81'')),
        Key (KeyDown ''7'') Returned]"
    by (simp add: right_up_released_1_def right_up_hold_config_def handler_defs new_events_def
        initial_world_def msgq_put_def emit_def)
  show "new_events initial_world (handle_frames quiet_env right_up_disabled_config
      [([0x00, 0x01, 0x81], False), ([0x00, 0x01, 0x81], False), ([0x00, 0x01, 0x01], False)]
      initial_world)
     = [Put (Log (LogButton ''Right Up'' Press 1 ''0001'' ''81'')),
        Put (Log (LogButton ''Right Up'' Release 1 ''0001'' ''01''))]"
    by (simp add: right_up_disabled_config_def handler_defs new_events_def
        initial_world_def msgq_put_def emit_def)
qed

subsection \<open>The passes of the loop\<close>

lemma local_step_refl: "local_step s s"
  by (simp add: local_step_def)

lemma local_step_trans: "local_step s s1 \<Longrightarrow> local_step s1 s2 \<Longrightarrow> local_step s s2"
  unfolding local_step_def by (elim conjE exE) (rule conjI, rule exI [where x = "_ @ _"], auto)

lemma local_step_emit: "is_local e \<Longrightarrow> local_step s (emit e s)"
  by (simp add: local_step_def)

lemma local_step_put_log: "local_step s (msgq_put (Log l) s)"
  by (simp add: local_step_def is_local_def)

lemma local_step_held: "local_step s s' \<Longrightarrow> local_step s (s'\<lparr>HELD_BY_BUTTON := h\<rparr>)"
  by (simp add: local_step_def)

lemma local_step_held0: "local_step s (s\<lparr>HELD_BY_BUTTON := h\<rparr>)"
  by (simp add: local_step_def)

lemma local_step_last_seq: "local_step s (s\<lparr>last_seq := h\<rparr>)"
  by (simp add: local_step_def)

lemma local_pydirectinput: "local_step s (snd (pydirectinput E c s))"
  by (simp add: pydirectinput_def local_step_emit is_local_def)

lemma local_send_key_tap: "local_step s (snd (send_key_tap E k s))"
  by (simp add: send_key_tap_def local_pydirectinput local_step_refl split: option.splits)

lemma local_send_key_down: "local_step s (snd (send_key_down E k s))"
  by (simp add: send_key_down_def local_pydirectinput local_step_refl split: option.splits)

lemma local_send_key_up: "local_step s (snd (send_key_up E k s))"
  by (simp add: send_key_up_def local_pydirectinput local_step_refl split: option.splits)

lemma local_hold_if_needed: "local_step s (snd (hold_if_needed E b k s))"
  using local_send_key_down [of s E k]
  by (auto simp: hold_if_needed_def local_step_refl local_step_held
      split: prod.splits completion.splits)

lemma local_release_if_held: "local_step s (snd (release_if_held E b s))"
proof -
  from release_if_held_shape [of E b s] obtain r new where
    e: "release_if_held E b s =
      (r, s\<lparr>HELD_BY_BUTTON := AList.delete b (HELD_BY_BUTTON s), trace := trace s @ new\<rparr>)"
    and nw: "new = (case map_of (HELD_BY_BUTTON s) b of
               None \<Rightarrow> []
             | Some k \<Rightarrow> (if k = [] then [] else [Key (KeyUp (pydi_name k)) r]))"
    by blast
  have "\<forall>e \<in> set new. is_local e" by (auto simp: nw is_local_def split: option.splits)
  then show ?thesis by (simp add: e local_step_def)
qed

lemma local_dispatch: "local_step s (snd (dispatch E c b ev s))"
  by (simp add: dispatch_def Let_def local_step_refl local_send_key_tap local_hold_if_needed
      local_release_if_held split: option.splits)

lemma local_notification_handler: "local_step s (snd (notification_handler E c d p s))"
proof (cases "parse_short_frame p")
  case None
  then show ?thesis
    by (simp add: notification_handler_def local_step_refl local_step_put_log)
next
  case (Some evt)
  show ?thesis
  proof (cases "last_seq s (prefix evt, type evt) = Some (seq evt)")
    case True
    with Some show ?thesis
      by (simp add: notification_handler_def already_handled_def local_step_refl)
  next
    case False
    let ?s1 = "s\<lparr>last_seq := (last_seq s)((prefix evt, type evt) \<mapsto> seq evt)\<rparr>"
    let ?s2 = "msgq_put (Log (LogButton (name evt) (type evt) (seq evt) (prefix evt) (rrHex evt))) ?s1"
    have "local_step s ?s2"
      by (rule local_step_trans [OF local_step_last_seq local_step_put_log])
    then have "local_step s (snd (dispatch E c (name evt) (type evt) ?s2))"
      by (rule local_step_trans [OF _ local_dispatch])
    with Some False show ?thesis
      by (simp add: notification_handler_def already_handled_def)
  qed
qed

lemma local_handle_frames: "local_step s (handle_frames E c fs s)"
proof (induction fs arbitrary: s)
  case Nil
  show ?case by (simp add: local_step_refl)
next
  case (Cons f fs)
  obtain p d where f: "f = (p, d)" by (cases f)
  show ?case
    unfolding f handle_frames.simps
    by (rule local_step_trans [OF local_notification_handler Cons.IH])
qed


lemma request_stop_simps [simp]:
  "HELD_BY_BUTTON (request_stop b s) = HELD_BY_BUTTON s"
  "last_seq (request_stop b s) = last_seq s"
  "notify_on (request_stop b s) = notify_on s"
  "stop_event (request_stop b s) = (stop_event s \<or> b)"
  "trace (request_stop b s) = trace s @ (if b \<and> \<not> stop_event s then [StopSet] else [])"
  by (auto simp: request_stop_def)

lemma listen_notify_on: "notify_on (listen E c a s) = notify_on s"
  using local_handle_frames [of s E c "frames a"]
  by (simp add: listen_def Let_def local_step_def split: listen_end.splits)


lemma body_end_notify_on:
  "attempt_body E c a s = (BodyEnd, s') \<Longrightarrow> notify_on s'"
  by (auto simp: attempt_body_def Let_def listen_notify_on
      split: connect_result.splits if_splits)

lemma teardown_simps [simp]:
  "trace (teardown a s) = trace s @ teardown_events a s"
  "HELD_BY_BUTTON (teardown a s) = HELD_BY_BUTTON s"
  "last_seq (teardown a s) = last_seq s"
  "stop_event (teardown a s) = (stop_event s \<or> stop_in_cleanup a)"
  by (simp_all add: teardown_def teardown_events_def Let_def)

lemma teardown_events_no_key: "\<forall>e \<in> set (teardown_events a s). \<not> is_key e"
  by (auto simp: teardown_events_def is_key_def)

lemma cleanup_shape:
  "\<exists>ku. cleanup E a s =
      (Returned,
       (teardown a s)\<lparr>notify_on := False, HELD_BY_BUTTON := [],
          trace := trace s @ teardown_events a s @ ku\<rparr>)
    \<and> (\<forall>e \<in> set ku. \<exists>k r. e = Key (KeyUp k) r)
    \<and> key_calls ku = map (\<lambda>k. KeyUp (pydi_name k)) (held_keys s)"
proof -
  let ?s2 = "(teardown a s)\<lparr>notify_on := False\<rparr>"
  from release_all_shape [of E ?s2] obtain new where
    e: "release_all_held_keys E ?s2 = (Returned, ?s2\<lparr>HELD_BY_BUTTON := [], trace := trace ?s2 @ new\<rparr>)"
    and k: "\<forall>e \<in> set new. \<exists>k' r. e = Key (KeyUp k') r"
    and c: "key_calls new = map (\<lambda>k. KeyUp (pydi_name k)) (held_keys ?s2)"
    by blast
  have h: "held_keys ?s2 = held_keys s" by (simp add: held_keys_def)
  show ?thesis
    using k c unfolding h
    by (intro exI [of _ new]) (simp add: cleanup_def e)
qed

lemma finish_body_end:
  "\<exists>ku. trace (snd (finish E a d (BodyEnd, s))) =
          trace s @ teardown_events a s @ ku @ final_events a (stop_event s \<or> stop_in_cleanup a)
    \<and> (\<forall>e \<in> set ku. \<exists>k r. e = Key (KeyUp k) r)
    \<and> key_calls ku = map (\<lambda>k. KeyUp (pydi_name k)) (held_keys s)
    \<and> HELD_BY_BUTTON (snd (finish E a d (BodyEnd, s))) = []
    \<and> fst (finish E a d (BodyEnd, s)) =
        (if stop_event s \<or> stop_in_cleanup a then Done LoopExit else Next (Some d))"
proof -
  from cleanup_shape [of E a s] obtain ku where
    e: "cleanup E a s =
      (Returned,
       (teardown a s)\<lparr>notify_on := False, HELD_BY_BUTTON := [],
          trace := trace s @ teardown_events a s @ ku\<rparr>)"
    and k: "\<forall>e \<in> set ku. \<exists>k r. e = Key (KeyUp k) r"
    and c: "key_calls ku = map (\<lambda>k. KeyUp (pydi_name k)) (held_keys s)"
    by blast
  show ?thesis
    using k c
    by (intro exI [of _ ku]) (simp add: finish_def e final_events_def)
qed






lemma local_not_link:
  "is_local e \<Longrightarrow> e \<noteq> Ble b \<and> e \<noteq> StopSet \<and> e \<noteq> Sleep n \<and> e \<noteq> Put (Status t col)
     \<and> e \<noteq> SetStatus t col \<and> e \<noteq> Put (EnableConnect x)"
  by (auto simp: is_local_def split: event.splits ui_msg.splits)





























lemma after_stop_subset: "set (after_stop xs) \<subseteq> set xs"
  unfolding after_stop_def by (auto dest: set_dropWhileD)




lemma sleeps_append: "sleeps (xs @ ys) = sleeps xs @ sleeps ys"
  by (induction xs rule: sleeps.induct) simp_all

lemma statuses_append: "statuses (xs @ ys) = statuses xs @ statuses ys"
  by (induction xs rule: statuses.induct) simp_all

lemma ble_calls_append: "ble_calls (xs @ ys) = ble_calls xs @ ble_calls ys"
  by (induction xs rule: ble_calls.induct) simp_all

lemma local_projections:
  assumes "\<forall>e \<in> set xs. is_local e"
  shows "sleeps xs = []" and "statuses xs = []" and "ble_calls xs = []"
  using assms
  by (induction xs; auto simp: is_local_def split: event.splits ui_msg.splits)+

lemma key_ups_local: "\<forall>e \<in> set ku. \<exists>k r. e = Key (KeyUp k) r \<Longrightarrow> \<forall>e \<in> set ku. is_local e"
  by (auto simp: is_local_def)

lemma teardown_projections:
  "sleeps (teardown_events a s) = []" "statuses (teardown_events a s) = []"
  "Discover \<notin> set (ble_calls (teardown_events a s))"
  by (simp_all add: teardown_events_def)

lemma cleanup_summary:
  "\<exists>s' new. cleanup E a s = (Returned, s') \<and> trace s' = trace s @ new
     \<and> stop_event s' = (stop_event s \<or> stop_in_cleanup a)
     \<and> sleeps new = [] \<and> statuses new = [] \<and> Discover \<notin> set (ble_calls new)
     \<and> (\<not> stop_in_cleanup a \<longrightarrow> StopSet \<notin> set new)"
proof -
  from cleanup_shape [of E a s] obtain ku where
    e: "cleanup E a s =
      (Returned,
       (teardown a s)\<lparr>notify_on := False, HELD_BY_BUTTON := [],
          trace := trace s @ teardown_events a s @ ku\<rparr>)"
    and k: "\<forall>e \<in> set ku. \<exists>k r. e = Key (KeyUp k) r"
    by blast
  note l = local_projections [OF key_ups_local [OF k]]
  have ks: "StopSet \<notin> set ku" using k by auto
  have ts: "\<not> stop_in_cleanup a \<Longrightarrow> StopSet \<notin> set (teardown_events a s)"
    by (simp add: teardown_events_def)
  let ?s' = "(teardown a s)\<lparr>notify_on := False, HELD_BY_BUTTON := [],
          trace := trace s @ teardown_events a s @ ku\<rparr>"
  show ?thesis
    by (intro exI [of _ ?s'] exI [of _ "teardown_events a s @ ku"])
       (simp add: e sleeps_append statuses_append ble_calls_append teardown_projections l ks ts)
qed

lemma link_dropped_after_found:
  assumes "link_dropped a" and "\<not> stop_event s"
  shows "\<exists>s' new.
     finish E a d (attempt_body E c a (s\<lparr>notify_on := False\<rparr>)) = (Next (Some d), s')
     \<and> stop_event s' = stop_in_retry_sleep a
     \<and> trace s' = trace s @ new @ (if stop_in_retry_sleep a then [StopSet] else [])
     \<and> StopSet \<notin> set new
     \<and> sleeps new = [RECONNECT_DELAY_MS] \<and> statuses new = [Connected, Reconnecting]
     \<and> Discover \<notin> set (ble_calls new)"
proof -
  let ?s5 = "msgq_put (Log LogListening)
      (msgq_put (Status Connected Green)
        ((emit (Ble StartNotify)
           (msgq_put (Log LogSubscribing)
             (emit (Ble Connect) (s\<lparr>notify_on := False\<rparr>))))\<lparr>notify_on := True\<rparr>))"
  let ?s6 = "handle_frames E c (frames a) ?s5"
  have body: "attempt_body E c a (s\<lparr>notify_on := False\<rparr>) = (BodyEnd, ?s6)"
    using assms by (simp add: attempt_body_def link_dropped_def listen_def request_stop_def)
  from local_handle_frames [of ?s5 E c "frames a"] obtain F where
    f: "trace ?s6 = trace ?s5 @ F" "\<forall>e \<in> set F. is_local e" "stop_event ?s6 = stop_event ?s5"
    unfolding local_step_def by blast
  have fs: "StopSet \<notin> set F" using f(2) local_not_link by blast
  from cleanup_summary [of E a ?s6] obtain s7 n7 where
    c: "cleanup E a ?s6 = (Returned, s7)" "trace s7 = trace ?s6 @ n7"
      "stop_event s7 = (stop_event ?s6 \<or> stop_in_cleanup a)"
      "sleeps n7 = []" "statuses n7 = []" "Discover \<notin> set (ble_calls n7)"
      "\<not> stop_in_cleanup a \<longrightarrow> StopSet \<notin> set n7"
    by blast
  have ns: "\<not> stop_event s7" using c(3) f(3) assms by (simp add: link_dropped_def)
  have n7s: "StopSet \<notin> set n7" using c(7) assms(1) by (simp add: link_dropped_def)
  let ?s8 = "request_stop (stop_in_retry_sleep a)
               (emit (Sleep RECONNECT_DELAY_MS)
                 (msgq_put (Log LogWillRetry) (msgq_put (Status Reconnecting Orange) s7)))"
  have fin: "finish E a d (BodyEnd, ?s6) = (Next (Some d), ?s8)"
    using ns by (simp add: finish_def c(1))
  let ?new = "[Ble Connect, Put (Log LogSubscribing), Ble StartNotify,
               Put (Status Connected Green), Put (Log LogListening)] @ F @ n7
              @ [Put (Status Reconnecting Orange), Put (Log LogWillRetry),
                 Sleep RECONNECT_DELAY_MS]"
  have t: "trace ?s8 = trace s @ ?new @ (if stop_in_retry_sleep a then [StopSet] else [])"
    using ns by (simp add: c(2) f(1))
  have st: "stop_event ?s8 = stop_in_retry_sleep a" using ns by simp
  have "sleeps ?new = [RECONNECT_DELAY_MS]" "statuses ?new = [Connected, Reconnecting]"
    "Discover \<notin> set (ble_calls ?new)" "StopSet \<notin> set ?new"
    using local_projections [OF f(2)] c(4-6) fs n7s
    by (simp_all add: sleeps_append statuses_append ble_calls_append)
  then show ?thesis
    unfolding body fin using st t
    by (intro exI [of _ ?s8] exI [of _ ?new]) simp
qed

lemma connect_fail_after_found:
  assumes "connect_fails a" and "\<not> stop_event s"
  shows "\<exists>s' new.
     finish E a d (attempt_body E c a (s\<lparr>notify_on := False\<rparr>)) = (Next None, s')
     \<and> \<not> stop_event s' \<and> trace s' = trace s @ new
     \<and> sleeps new = [RECONNECT_DELAY_MS] \<and> statuses new = [Error]
     \<and> Discover \<notin> set (ble_calls new)"
proof -
  let ?s4 = "emit (Sleep RECONNECT_DELAY_MS)
      (msgq_put (Status Error Red)
        (msgq_put (Log LogFailedToConnect)
           (emit (Ble Connect) (s\<lparr>notify_on := False\<rparr>))))"
  have body: "attempt_body E c a (s\<lparr>notify_on := False\<rparr>) = (BodyContinue, ?s4)"
    using assms by (simp add: attempt_body_def connect_fails_def request_stop_def)
  from cleanup_summary [of E a ?s4] obtain s7 n7 where
    c: "cleanup E a ?s4 = (Returned, s7)" "trace s7 = trace ?s4 @ n7"
      "stop_event s7 = (stop_event ?s4 \<or> stop_in_cleanup a)"
      "sleeps n7 = []" "statuses n7 = []" "Discover \<notin> set (ble_calls n7)"
    by blast
  have ns: "\<not> stop_event s7" using c(3) assms by (simp add: connect_fails_def)
  have fin: "finish E a d (BodyContinue, ?s4) = (Next None, s7)"
    by (simp add: finish_def c(1))
  let ?new = "[Ble Connect, Put (Log LogFailedToConnect), Put (Status Error Red),
               Sleep RECONNECT_DELAY_MS] @ n7"
  have t: "trace s7 = trace s @ ?new" by (simp add: c(2))
  have "sleeps ?new = [RECONNECT_DELAY_MS]" "statuses ?new = [Error]"
    "Discover \<notin> set (ble_calls ?new)"
    using c(4-6) by (simp_all add: sleeps_append statuses_append ble_calls_append)
  then show ?thesis
    unfolding body fin using ns t
    by (intro exI [of _ s7] exI [of _ ?new]) simp
qed

lemma found_start:
  "\<not> stop_at_head a \<Longrightarrow>
   ble_attempt E c a (Some d) s =
     finish E a d (attempt_body E c a
       ((msgq_put (Log (LogFound (name_of d) (dev_address d))) s)\<lparr>notify_on := False\<rparr>))"
  by (simp add: ble_attempt_def scan_def request_stop_def)

lemma link_dropped_pass:
  assumes "link_dropped a" and "\<not> stop_event s"
  shows "\<exists>s' new. ble_attempt E c a (Some d) s = (Next (Some d), s')
     \<and> stop_event s' = stop_in_retry_sleep a
     \<and> trace s' = trace s @ new @ (if stop_in_retry_sleep a then [StopSet] else [])
     \<and> StopSet \<notin> set new
     \<and> sleeps new = [RECONNECT_DELAY_MS] \<and> statuses new = [Connected, Reconnecting]
     \<and> Discover \<notin> set (ble_calls new)"
proof -
  let ?s2 = "msgq_put (Log (LogFound (name_of d) (dev_address d))) s"
  have ns: "\<not> stop_event ?s2" using assms(2) by simp
  from link_dropped_after_found [OF assms(1) ns, of E d c] obtain s' new where
    r: "finish E a d (attempt_body E c a (?s2\<lparr>notify_on := False\<rparr>)) = (Next (Some d), s')"
      "stop_event s' = stop_in_retry_sleep a"
      "trace s' = trace ?s2 @ new @ (if stop_in_retry_sleep a then [StopSet] else [])"
      "StopSet \<notin> set new"
      "sleeps new = [RECONNECT_DELAY_MS]" "statuses new = [Connected, Reconnecting]"
      "Discover \<notin> set (ble_calls new)"
    by blast
  have nh: "\<not> stop_at_head a" using assms(1) by (simp add: link_dropped_def)
  show ?thesis
    unfolding found_start [OF nh] r(1) using r(2-7)
    by (intro exI [of _ s'] exI [of _ "Put (Log (LogFound (name_of d) (dev_address d))) # new"])
       simp
qed

lemma connect_fail_pass:
  assumes "connect_fails a" and "\<not> stop_event s"
  shows "\<exists>s' new. ble_attempt E c a (Some d) s = (Next None, s')
     \<and> \<not> stop_event s' \<and> trace s' = trace s @ new
     \<and> sleeps new = [RECONNECT_DELAY_MS] \<and> statuses new = [Error]
     \<and> Discover \<notin> set (ble_calls new)"
proof -
  let ?s2 = "msgq_put (Log (LogFound (name_of d) (dev_address d))) s"
  have ns: "\<not> stop_event ?s2" using assms(2) by simp
  from connect_fail_after_found [OF assms(1) ns, of E d c] obtain s' new where
    r: "finish E a d (attempt_body E c a (?s2\<lparr>notify_on := False\<rparr>)) = (Next None, s')"
      "\<not> stop_event s'" "trace s' = trace ?s2 @ new"
      "sleeps new = [RECONNECT_DELAY_MS]" "statuses new = [Error]"
      "Discover \<notin> set (ble_calls new)"
    by blast
  have nh: "\<not> stop_at_head a" using assms(1) by (simp add: connect_fails_def)
  show ?thesis
    unfolding found_start [OF nh] r(1) using r(2-6)
    by (intro exI [of _ s'] exI [of _ "Put (Log (LogFound (name_of d) (dev_address d))) # new"])
       simp
qed

lemma scan_found:
  assumes "scan_finds a" and "\<not> stop_event s"
  shows "\<exists>d s1 pre. scan a dev s = (Found d, s1) \<and> \<not> stop_event s1
     \<and> trace s1 = trace s @ pre \<and> sleeps pre = []"
proof (cases dev)
  case (Some d)
  then show ?thesis
    using assms(2) by (intro exI [of _ d] exI [of _ s] exI [of _ "[]"]) (simp add: scan_def)
next
  case None
  from assms(1) obtain devices d where
    f: "discovered a = ScanFinds devices" "find_device_by_prefix DEVICE_NAME_PREFIX devices = Some d"
    and n: "\<not> stop_in_scan a"
    by (auto simp: scan_finds_def split: scan_result.splits)
  show ?thesis
    using assms(2)
    by (intro exI [of _ d]
        exI [of _ "emit (Ble Discover)
                    (msgq_put (Log LogScanning) (emit (SetStatus Scanning Orange) s))"]
        exI [of _ "[SetStatus Scanning Orange, Put (Log LogScanning), Ble Discover]"])
       (simp add: scan_def None f n request_stop_def)
qed

lemma recover_pass:
  assumes "recovers a" and "\<not> stop_event s"
  shows "\<exists>dev' s' new. ble_attempt E c a dev s = (Next dev', s')
     \<and> \<not> stop_event s' \<and> trace s' = trace s @ new \<and> sleeps new = [RECONNECT_DELAY_MS]"
proof -
  from assms(1) have sf: "scan_finds a" and k: "link_drops a \<or> connect_fails a"
    by (simp_all add: recovers_def)
  from sf have nh: "\<not> stop_at_head a" by (simp add: scan_finds_def)
  from scan_found [OF sf assms(2), of dev] obtain d s1 pre where
    sc: "scan a dev s = (Found d, s1)" "\<not> stop_event s1" "trace s1 = trace s @ pre"
      "sleeps pre = []"
    by blast
  let ?s2 = "msgq_put (Log (LogFound (name_of d) (dev_address d))) s1"
  have ns: "\<not> stop_event ?s2" using sc(2) by simp
  have at: "ble_attempt E c a dev s =
       finish E a d (attempt_body E c a (?s2\<lparr>notify_on := False\<rparr>))"
    by (simp add: ble_attempt_def request_stop_def nh sc(1))
  have "\<exists>dev' s' new.
      finish E a d (attempt_body E c a (?s2\<lparr>notify_on := False\<rparr>)) = (Next dev', s')
      \<and> \<not> stop_event s' \<and> trace s' = trace ?s2 @ new \<and> sleeps new = [RECONNECT_DELAY_MS]"
  proof (cases "link_drops a")
    case True
    then have ld: "link_dropped a" and nr: "\<not> stop_in_retry_sleep a"
      by (simp_all add: link_drops_def)
    from link_dropped_after_found [OF ld ns, of E d c] nr show ?thesis by auto
  next
    case False
    with k have "connect_fails a" by simp
    from connect_fail_after_found [OF this ns, of E d c] show ?thesis by blast
  qed
  then obtain dev' s' new where
    r: "finish E a d (attempt_body E c a (?s2\<lparr>notify_on := False\<rparr>)) = (Next dev', s')"
      "\<not> stop_event s'" "trace s' = trace ?s2 @ new" "sleeps new = [RECONNECT_DELAY_MS]"
    by blast
  show ?thesis
    unfolding at r(1) using r(2-4) sc(3,4)
    by (intro exI [of _ dev'] exI [of _ s']
        exI [of _ "pre @ Put (Log (LogFound (name_of d) (dev_address d))) # new"])
       (simp add: sleeps_append)
qed

lemma link_drop_run:
  assumes "\<forall>a \<in> set passes. link_drops a" and "\<not> stop_event s"
  shows "\<exists>s' new. ble_main_loop E c passes (Some d) s = (StillRunning, s')
     \<and> \<not> stop_event s' \<and> trace s' = trace s @ new
     \<and> sleeps new = replicate (length passes) RECONNECT_DELAY_MS
     \<and> statuses new = concat (replicate (length passes) [Connected, Reconnecting])
     \<and> Discover \<notin> set (ble_calls new)"
  using assms
proof (induction passes arbitrary: s)
  case Nil
  then show ?case by (intro exI [of _ s] exI [of _ "[]"]) simp
next
  case (Cons a rest)
  from Cons.prems(1) have ld: "link_dropped a" and nr: "\<not> stop_in_retry_sleep a"
    and rest: "\<forall>a \<in> set rest. link_drops a"
    by (simp_all add: link_drops_def)
  from link_dropped_pass [OF ld Cons.prems(2), of E c d] nr obtain s1 n1 where
    1: "ble_attempt E c a (Some d) s = (Next (Some d), s1)" "\<not> stop_event s1"
      "trace s1 = trace s @ n1" "sleeps n1 = [RECONNECT_DELAY_MS]"
      "statuses n1 = [Connected, Reconnecting]" "Discover \<notin> set (ble_calls n1)"
    by auto
  from Cons.IH [OF rest 1(2)] obtain s2 n2 where
    2: "ble_main_loop E c rest (Some d) s1 = (StillRunning, s2)" "\<not> stop_event s2"
      "trace s2 = trace s1 @ n2" "sleeps n2 = replicate (length rest) RECONNECT_DELAY_MS"
      "statuses n2 = concat (replicate (length rest) [Connected, Reconnecting])"
      "Discover \<notin> set (ble_calls n2)"
    by blast
  show ?case
    using Cons.prems(2) 1 2
    by (intro exI [of _ s2] exI [of _ "n1 @ n2"])
       (simp add: sleeps_append statuses_append ble_calls_append)
qed

lemma recover_run:
  assumes "\<forall>a \<in> set passes. recovers a" and "\<not> stop_event s"
  shows "\<exists>s' new. ble_main_loop E c passes dev s = (StillRunning, s')
     \<and> \<not> stop_event s' \<and> trace s' = trace s @ new
     \<and> sleeps new = replicate (length passes) RECONNECT_DELAY_MS"
  using assms
proof (induction passes arbitrary: s dev)
  case Nil
  then show ?case by (intro exI [of _ s] exI [of _ "[]"]) simp
next
  case (Cons a rest)
  from Cons.prems(1) have ra: "recovers a" and rest: "\<forall>a \<in> set rest. recovers a"
    by simp_all
  from recover_pass [OF ra Cons.prems(2), of E c dev] obtain dev' s1 n1 where
    1: "ble_attempt E c a dev s = (Next dev', s1)" "\<not> stop_event s1"
      "trace s1 = trace s @ n1" "sleeps n1 = [RECONNECT_DELAY_MS]"
    by blast
  from Cons.IH [OF rest 1(2), of dev'] obtain s2 n2 where
    2: "ble_main_loop E c rest dev' s1 = (StillRunning, s2)" "\<not> stop_event s2"
      "trace s2 = trace s1 @ n2" "sleeps n2 = replicate (length rest) RECONNECT_DELAY_MS"
    by blast
  show ?case
    using Cons.prems(2) 1 2
    by (intro exI [of _ s2] exI [of _ "n1 @ n2"]) (simp add: sleeps_append)
qed

subsection \<open>Leaving the listening state\<close>

text \<open>The definitions a concrete run is computed with.\<close>

lemmas run_defs =
  ble_main_def ble_attempt_def scan_def attempt_body_def finish_def cleanup_def teardown_def
  listen_def request_stop_def find_device_by_prefix_def DEVICE_NAME_PREFIX_def name_of_def
  release_all_held_keys_def release_one_def msgq_put_def emit_def Let_def

lemmas pass_defs =
  drop_pass_def steer_drop_pass_def no_connect_pass_def nothing_found_pass_def
  connect_raises_pass_def stop_in_scan_pass_def stop_at_head_pass_def stop_click_pass_def
  stop_in_retry_pass_def
  kickr_def

text \<open>
  Claim C2, as the code has it. Whenever a pass has been listening and leaves the
  \<^verbatim>\<open>try\<close> (by a stop request or by the link dropping), the rest of the pass adds to
  the trace, in this order: the teardown, which contains the call of \<^verbatim>\<open>stop_notify\<close>,
  and that of \<^verbatim>\<open>disconnect\<close> if the client is still connected, and no key injection;
  then one key-up call for every held key, and nothing else; then the status message
  ``Disconnected'' or ``Reconnecting'', which is the first status message since the pass
  left the listening loop. At the end no key is held. A failure of \<^verbatim>\<open>stop_notify\<close> or
  of \<^verbatim>\<open>disconnect\<close> is logged in the teardown and goes no further: the pass ends by
  leaving the loop if the stop is set, and by going on to the next pass otherwise.
\<close>

theorem C2_release_after_teardown:
  assumes "attempt_body E c a s = (BodyEnd, s')"
  shows "\<exists>td ku fin.
      trace (snd (finish E a d (attempt_body E c a s))) = trace s' @ td @ ku @ fin
    \<and> Ble StopNotify \<in> set td
    \<and> (still_connected a \<longrightarrow> Ble Disconnect \<in> set td)
    \<and> (\<forall>e \<in> set td. \<not> is_key e)
    \<and> (\<forall>e \<in> set ku. \<exists>k r. e = Key (KeyUp k) r)
    \<and> key_calls ku = map (\<lambda>k. KeyUp (pydi_name k)) (held_keys s')
    \<and> statuses (td @ ku) = []
    \<and> (\<exists>rest. fin = Put (Status Disconnected Gray) # rest
              \<or> fin = Put (Status Reconnecting Orange) # rest)
    \<and> HELD_BY_BUTTON (snd (finish E a d (attempt_body E c a s))) = []
    \<and> Put (Log (if stop_notify_raises a then LogStopNotifyError else LogNotificationsStopped))
        \<in> set td
    \<and> (Put (Log (if disconnect_raises a then LogDisconnectError else LogDisconnected)) \<in> set td)
        = still_connected a
    \<and> fst (finish E a d (attempt_body E c a s))
        = (if stop_event s' \<or> stop_in_cleanup a then Done LoopExit else Next (Some d))"
proof -
  have n: "notify_on s'" by (rule body_end_notify_on [OF assms])
  from finish_body_end [of E a d s'] obtain ku where
    t: "trace (snd (finish E a d (BodyEnd, s'))) =
          trace s' @ teardown_events a s' @ ku
            @ final_events a (stop_event s' \<or> stop_in_cleanup a)"
    and k: "\<forall>e \<in> set ku. \<exists>k r. e = Key (KeyUp k) r"
    and c: "key_calls ku = map (\<lambda>k. KeyUp (pydi_name k)) (held_keys s')"
    and h: "HELD_BY_BUTTON (snd (finish E a d (BodyEnd, s'))) = []"
    and f: "fst (finish E a d (BodyEnd, s')) =
        (if stop_event s' \<or> stop_in_cleanup a then Done LoopExit else Next (Some d))"
    by blast
  have 5: "Put (Log (if stop_notify_raises a then LogStopNotifyError else LogNotificationsStopped))
        \<in> set (teardown_events a s')"
    using n by (simp add: teardown_events_def)
  have 6: "(Put (Log (if disconnect_raises a then LogDisconnectError else LogDisconnected))
        \<in> set (teardown_events a s')) = still_connected a"
    using n by (simp add: teardown_events_def)
  have 1: "Ble StopNotify \<in> set (teardown_events a s')"
    using n by (simp add: teardown_events_def)
  have 2: "still_connected a \<longrightarrow> Ble Disconnect \<in> set (teardown_events a s')"
    by (simp add: teardown_events_def)
  have 3: "statuses (teardown_events a s' @ ku) = []"
    using local_projections(2) [OF key_ups_local [OF k]]
    by (simp add: statuses_append teardown_projections)
  have 4: "\<exists>rest. final_events a x = Put (Status Disconnected Gray) # rest
              \<or> final_events a x = Put (Status Reconnecting Orange) # rest" for x
    by (simp add: final_events_def)
  show ?thesis
    unfolding assms
  proof (rule exI [of _ "teardown_events a s'"], rule exI [of _ ku],
      rule exI [of _ "final_events a (stop_event s' \<or> stop_in_cleanup a)"], intro conjI)
    show "trace (snd (finish E a d (BodyEnd, s'))) =
          trace s' @ teardown_events a s' @ ku
            @ final_events a (stop_event s' \<or> stop_in_cleanup a)" by (rule t)
    show "Ble StopNotify \<in> set (teardown_events a s')" by (rule 1)
    show "still_connected a \<longrightarrow> Ble Disconnect \<in> set (teardown_events a s')" by (rule 2)
    show "\<forall>e \<in> set (teardown_events a s'). \<not> is_key e" by (rule teardown_events_no_key)
    show "\<forall>e \<in> set ku. \<exists>k r. e = Key (KeyUp k) r" by (rule k)
    show "key_calls ku = map (\<lambda>k. KeyUp (pydi_name k)) (held_keys s')" by (rule c)
    show "statuses (teardown_events a s' @ ku) = []" by (rule 3)
    show "\<exists>rest. final_events a (stop_event s' \<or> stop_in_cleanup a)
                   = Put (Status Disconnected Gray) # rest
              \<or> final_events a (stop_event s' \<or> stop_in_cleanup a)
                   = Put (Status Reconnecting Orange) # rest" by (rule 4)
    show "HELD_BY_BUTTON (snd (finish E a d (BodyEnd, s'))) = []" by (rule h)
    show "Put (Log (if stop_notify_raises a then LogStopNotifyError else LogNotificationsStopped))
        \<in> set (teardown_events a s')" by (rule 5)
    show "(Put (Log (if disconnect_raises a then LogDisconnectError else LogDisconnected))
        \<in> set (teardown_events a s')) = still_connected a" by (rule 6)
    show "fst (finish E a d (BodyEnd, s'))
        = (if stop_event s' \<or> stop_in_cleanup a then Done LoopExit else Next (Some d))"
      by (rule f)
  qed
qed

text \<open>The pass of the counterexample, from the fresh start.\<close>

theorem C2_release_after_teardown_witness:
  "fst (attempt_body quiet_env source_config steer_drop_pass initial_world) = BodyEnd
   \<and> held_keys (snd (attempt_body quiet_env source_config steer_drop_pass initial_world))
       = [''ArrowRight'']
   \<and> (\<exists>td ku fin.
        trace (snd (finish quiet_env steer_drop_pass kickr
                 (attempt_body quiet_env source_config steer_drop_pass initial_world)))
          = trace (snd (attempt_body quiet_env source_config steer_drop_pass initial_world))
            @ td @ ku @ fin
        \<and> Ble StopNotify \<in> set td
        \<and> key_calls ku = [KeyUp ''right'']
        \<and> statuses (td @ ku) = []
        \<and> (\<exists>rest. fin = Put (Status Disconnected Gray) # rest
                  \<or> fin = Put (Status Reconnecting Orange) # rest))"
proof -
  let ?b = "attempt_body quiet_env source_config steer_drop_pass initial_world"
  have f: "fst ?b = BodyEnd"
    by (simp add: attempt_body_def steer_drop_pass_def drop_pass_def)
  have e: "?b = (BodyEnd, snd ?b)" using f by (simp add: prod_eq_iff)
  have h: "HELD_BY_BUTTON (snd ?b) = [(''Right Steer'', ''ArrowRight'')]"
    by (simp add: run_defs pass_defs handler_defs initial_world_def)
  have hk: "held_keys (snd ?b) = [''ArrowRight'']" by (simp add: held_keys_def h)
  have p: "pydi_name ''ArrowRight'' = ''right''"
    by (simp add: pydi_name_def to_pydi_key_def KEY_NAME_MAP_def)
  from C2_release_after_teardown [OF e, of kickr] obtain td ku fin where
    w1: "trace (snd (finish quiet_env steer_drop_pass kickr ?b)) = trace (snd ?b) @ td @ ku @ fin"
    and w2: "Ble StopNotify \<in> set td"
    and w3: "key_calls ku = map (\<lambda>k. KeyUp (pydi_name k)) (held_keys (snd ?b))"
    and w4: "statuses (td @ ku) = []"
    and w5: "\<exists>rest. fin = Put (Status Disconnected Gray) # rest
              \<or> fin = Put (Status Reconnecting Orange) # rest"
    by blast
  have w3': "key_calls ku = [KeyUp ''right'']" using w3 by (simp add: hk p)
  have "\<exists>td ku fin.
        trace (snd (finish quiet_env steer_drop_pass kickr ?b)) = trace (snd ?b) @ td @ ku @ fin
        \<and> Ble StopNotify \<in> set td
        \<and> key_calls ku = [KeyUp ''right'']
        \<and> statuses (td @ ku) = []
        \<and> (\<exists>rest. fin = Put (Status Disconnected Gray) # rest
                  \<or> fin = Put (Status Reconnecting Orange) # rest)"
  proof (rule exI [of _ td], rule exI [of _ ku], rule exI [of _ fin], intro conjI)
    show "trace (snd (finish quiet_env steer_drop_pass kickr ?b)) = trace (snd ?b) @ td @ ku @ fin"
      by (rule w1)
    show "Ble StopNotify \<in> set td" by (rule w2)
    show "key_calls ku = [KeyUp ''right'']" by (rule w3')
    show "statuses (td @ ku) = []" by (rule w4)
    show "\<exists>rest. fin = Put (Status Disconnected Gray) # rest
              \<or> fin = Put (Status Reconnecting Orange) # rest" by (rule w5)
  qed
  with f hk show ?thesis by (intro conjI)
qed

text \<open>
  Claim C2 asks for the release of the held keys before any step of the transport
  teardown. The code has the opposite order: \<^verbatim>\<open>release_all_held_keys()\<close> stands in the
  inner \<^verbatim>\<open>finally\<close>, after \<^verbatim>\<open>stop_notify\<close> and \<^verbatim>\<open>disconnect\<close>. A first pass from
  the fresh start, in which ``Right Steer'' is pressed and the link then drops: the
  key-up of the right arrow comes after the call of \<^verbatim>\<open>stop_notify\<close> (and before the
  status ``Reconnecting'').
\<close>

theorem C2_counterexample:
  "trace (snd (ble_main quiet_env source_config [steer_drop_pass] initial_world)) =
     [SetStatus Scanning Orange,
      Put (Log LogScanning),
      Ble Discover,
      Put (Log (LogFound ''KICKR BIKE SHIFT 1234'' ''C0:FF:EE:00:00:01'')),
      Ble Connect,
      Put (Log LogSubscribing),
      Ble StartNotify,
      Put (Status Connected Green),
      Put (Log LogListening),
      Put (Log (LogButton ''Right Steer'' Press 1 ''0008'' ''81'')),
      Key (KeyDown ''right'') Returned,
      Ble StopNotify,
      Put (Log LogNotificationsStopped),
      Key (KeyUp ''right'') Returned,
      Put (Status Reconnecting Orange),
      Put (Log LogWillRetry),
      Sleep 1500]"
  by (simp add: run_defs pass_defs handler_defs initial_world_def RECONNECT_DELAY_MS_def)

subsection \<open>Reconnecting\<close>

text \<open>
  Claim C6, as the code has it, for a loop entered with the stop not set.
  \<^item> As long as every pass ends by the link dropping (no stop requested), the loop is
    still running after any number of passes; it has slept the fixed delay
    \<open>RECONNECT_DELAY_MS\<close> once per pass, put the statuses ``Connected'' and
    ``Reconnecting'' once per pass and no other, and made no scan: each pass connects to
    the device it already has.
  \<^item> More generally, as long as every pass either ends by the link dropping or has a
    connect that returns without a connection, and every scan made finds the device,
    the loop is still running after any number of passes and has slept the same fixed
    delay once per pass.
  \<^item> A connect that returns without a connection makes the next pass scan again; the
    pass shows the status ``Error'' and no other, and sleeps the same fixed delay once.
  \<^item> A run does end, by itself, when a scan does not find the device (the \<^verbatim>\<open>return\<close>
    after ``Device not found'').
\<close>

theorem C6_reconnect:
  assumes "\<not> stop_event s"
  shows "((\<forall>a \<in> set passes. link_drops a) \<longrightarrow>
            fst (ble_main_loop E c passes (Some d) s) = StillRunning
          \<and> sleeps (new_events s (snd (ble_main_loop E c passes (Some d) s)))
              = replicate (length passes) RECONNECT_DELAY_MS
          \<and> statuses (new_events s (snd (ble_main_loop E c passes (Some d) s)))
              = concat (replicate (length passes) [Connected, Reconnecting])
          \<and> Discover \<notin> set (ble_calls (new_events s (snd (ble_main_loop E c passes (Some d) s)))))
     \<and> ((\<forall>a \<in> set passes. recovers a) \<longrightarrow>
            fst (ble_main_loop E c passes dev s) = StillRunning
          \<and> sleeps (new_events s (snd (ble_main_loop E c passes dev s)))
              = replicate (length passes) RECONNECT_DELAY_MS)
     \<and> (connect_fails a \<longrightarrow>
            fst (ble_attempt E c a (Some d) s) = Next None
          \<and> statuses (new_events s (snd (ble_attempt E c a (Some d) s))) = [Error]
          \<and> sleeps (new_events s (snd (ble_attempt E c a (Some d) s))) = [RECONNECT_DELAY_MS])
     \<and> (discovered a = ScanFinds devices
          \<and> find_device_by_prefix DEVICE_NAME_PREFIX devices = None \<longrightarrow>
            fst (ble_attempt E c a None s) = Done NotFoundReturn)"
proof (intro conjI impI)
  assume l: "\<forall>a \<in> set passes. link_drops a"
  from link_drop_run [OF l assms, of E c d] obtain s' new where
    r: "ble_main_loop E c passes (Some d) s = (StillRunning, s')" "trace s' = trace s @ new"
      "sleeps new = replicate (length passes) RECONNECT_DELAY_MS"
      "statuses new = concat (replicate (length passes) [Connected, Reconnecting])"
      "Discover \<notin> set (ble_calls new)"
    by blast
  have n: "new_events s (snd (ble_main_loop E c passes (Some d) s)) = new"
    by (rule new_events_append) (simp add: r)
  show "fst (ble_main_loop E c passes (Some d) s) = StillRunning" by (simp add: r(1))
  show "sleeps (new_events s (snd (ble_main_loop E c passes (Some d) s)))
          = replicate (length passes) RECONNECT_DELAY_MS"
    unfolding n by (rule r(3))
  show "statuses (new_events s (snd (ble_main_loop E c passes (Some d) s)))
          = concat (replicate (length passes) [Connected, Reconnecting])"
    unfolding n by (rule r(4))
  show "Discover \<notin> set (ble_calls (new_events s (snd (ble_main_loop E c passes (Some d) s))))"
    unfolding n by (rule r(5))
next
  assume l: "\<forall>a \<in> set passes. recovers a"
  from recover_run [OF l assms, of E c dev] obtain s' new where
    r: "ble_main_loop E c passes dev s = (StillRunning, s')" "trace s' = trace s @ new"
      "sleeps new = replicate (length passes) RECONNECT_DELAY_MS"
    by blast
  have n: "new_events s (snd (ble_main_loop E c passes dev s)) = new"
    by (rule new_events_append) (simp add: r)
  show "fst (ble_main_loop E c passes dev s) = StillRunning" by (simp add: r(1))
  show "sleeps (new_events s (snd (ble_main_loop E c passes dev s)))
          = replicate (length passes) RECONNECT_DELAY_MS"
    unfolding n by (rule r(3))
next
  assume "connect_fails a"
  from connect_fail_pass [OF this assms, of E c d] obtain s' new where
    r: "ble_attempt E c a (Some d) s = (Next None, s')" "trace s' = trace s @ new"
      "sleeps new = [RECONNECT_DELAY_MS]" "statuses new = [Error]"
    by blast
  have n: "new_events s (snd (ble_attempt E c a (Some d) s)) = new"
    by (rule new_events_append) (simp only: r(1) snd_conv r(2))
  show "fst (ble_attempt E c a (Some d) s) = Next None" by (simp only: r(1) fst_conv)
  show "statuses (new_events s (snd (ble_attempt E c a (Some d) s))) = [Error]"
    unfolding n by (rule r(4))
  show "sleeps (new_events s (snd (ble_attempt E c a (Some d) s))) = [RECONNECT_DELAY_MS]"
    unfolding n by (rule r(3))
next
  assume r: "discovered a = ScanFinds devices
          \<and> find_device_by_prefix DEVICE_NAME_PREFIX devices = None"
  show "fst (ble_attempt E c a None s) = Done NotFoundReturn"
    by (simp add: ble_attempt_def scan_def r)
qed

text \<open>Three link drops in a row; and one pass of each other kind.\<close>

theorem C6_reconnect_witness:
  "link_drops drop_pass
   \<and> fst (ble_main_loop quiet_env source_config [drop_pass, drop_pass, drop_pass]
            (Some kickr) initial_world) = StillRunning
   \<and> sleeps (new_events initial_world
        (snd (ble_main_loop quiet_env source_config [drop_pass, drop_pass, drop_pass]
               (Some kickr) initial_world))) = [1500, 1500, 1500]
   \<and> statuses (new_events initial_world
        (snd (ble_main_loop quiet_env source_config [drop_pass, drop_pass, drop_pass]
               (Some kickr) initial_world)))
      = [Connected, Reconnecting, Connected, Reconnecting, Connected, Reconnecting]
   \<and> connect_fails no_connect_pass
   \<and> fst (ble_attempt quiet_env source_config no_connect_pass (Some kickr) initial_world)
      = Next None
   \<and> statuses (new_events initial_world
        (snd (ble_attempt quiet_env source_config no_connect_pass (Some kickr) initial_world)))
      = [Error]
   \<and> fst (ble_attempt quiet_env source_config nothing_found_pass None initial_world)
      = Done NotFoundReturn"
proof -
  have i: "\<not> stop_event initial_world" by (simp add: initial_world_def)
  have l: "link_drops drop_pass"
    by (simp add: link_drops_def link_dropped_def drop_pass_def)
  have ls: "\<forall>a \<in> set [drop_pass, drop_pass, drop_pass]. link_drops a" using l by simp
  have cf: "connect_fails no_connect_pass"
    by (simp add: connect_fails_def no_connect_pass_def drop_pass_def)
  have nf: "discovered nothing_found_pass = ScanFinds []
          \<and> find_device_by_prefix DEVICE_NAME_PREFIX [] = None"
    by (simp add: nothing_found_pass_def find_device_by_prefix_def)
  note run = C6_reconnect [OF i, of "[drop_pass, drop_pass, drop_pass]" quiet_env source_config
      kickr]
  from run ls have 1: "fst (ble_main_loop quiet_env source_config [drop_pass, drop_pass, drop_pass]
            (Some kickr) initial_world) = StillRunning"
    and 2: "sleeps (new_events initial_world
        (snd (ble_main_loop quiet_env source_config [drop_pass, drop_pass, drop_pass]
               (Some kickr) initial_world)))
         = replicate (length [drop_pass, drop_pass, drop_pass]) RECONNECT_DELAY_MS"
    and 3: "statuses (new_events initial_world
        (snd (ble_main_loop quiet_env source_config [drop_pass, drop_pass, drop_pass]
               (Some kickr) initial_world)))
      = concat (replicate (length [drop_pass, drop_pass, drop_pass]) [Connected, Reconnecting])"
    by blast+
  have r3: "replicate (length [drop_pass, drop_pass, drop_pass]) x = [x, x, x]" for x :: 'a
    by (simp add: numeral_3_eq_3)
  from C6_reconnect [OF i, of _ quiet_env source_config kickr _ no_connect_pass] cf
  have 4: "fst (ble_attempt quiet_env source_config no_connect_pass (Some kickr) initial_world)
      = Next None"
    and 5: "statuses (new_events initial_world
        (snd (ble_attempt quiet_env source_config no_connect_pass (Some kickr) initial_world)))
      = [Error]"
    by blast+
  from C6_reconnect [OF i, of _ quiet_env source_config _ _ nothing_found_pass "[]"] nf
  have 6: "fst (ble_attempt quiet_env source_config nothing_found_pass None initial_world)
      = Done NotFoundReturn"
    by blast
  show ?thesis
    using l 1 2 3 cf 4 5 6 unfolding r3 by (simp add: RECONNECT_DELAY_MS_def)
qed

text \<open>
  Claim C6 says that after a first successful connection no transport failure ends the
  run. Two runs that end: after a link drop the connect returns without a connection
  and the scan that follows finds nothing (``Not found''); after a link drop the connect
  raises (``Error'').
\<close>

theorem C6_counterexample:
  "fst (ble_main quiet_env source_config [drop_pass, no_connect_pass, nothing_found_pass]
          initial_world) = NotFoundReturn
   \<and> fst (ble_main quiet_env source_config [drop_pass, connect_raises_pass] initial_world)
       = Exception"
  by (simp add: run_defs pass_defs initial_world_def)

subsection \<open>Stopping\<close>







end
